theory Spec2Isabelle
  imports Main "HOL-Library.AList"
begin

section \<open>JavaScript values\<close>

text \<open>
  The messages of the protocol are JSON documents, and the client reads them with plain
  property access. A value is one of the JSON shapes, \<open>undefined\<close>, or a member that a
  plain object inherits from \<open>Object.prototype\<close>. Numbers are the integers that JavaScript
  holds exactly and prints as decimal numerals (magnitude below \<open>2^53\<close>; fractions and
  larger numbers are outside this model). An object is the list of its own properties in
  insertion order, which is the order of \<open>for (name in m)\<close> for keys that are not array
  indices.
\<close>

datatype jsval =
    JUndefined
  | JNull
  | JBool bool
  | JNum int
  | JStr string
  | JArr "jsval list"
  | JObj "(string \<times> jsval) list"
  | JInherited string    \<comment> \<open>the member of \<open>Object.prototype\<close> of that name\<close>

datatype error =
    TypeError      \<comment> \<open>a property read on \<open>undefined\<close>/\<open>null\<close>, a call of a missing method, \<open>in\<close> on a primitive\<close>
  | ParseError     \<comment> \<open>whatever the frame parser raises\<close>
  | Unmodelled     \<comment> \<open>a coercion of JavaScript that this model does not cover\<close>

definition LF :: char where
  "LF = CHR 0x0A"

subsection \<open>Strings\<close>

text \<open>\<open>s.split(d)\<close> for a separator of one character: never empty, \<open>"".split(d)\<close> is \<open>[""]\<close>.\<close>

fun js_split :: "char \<Rightarrow> string \<Rightarrow> string list" where
  "js_split d [] = [[]]"
| "js_split d (c # cs) =
     (if c = d then [] # js_split d cs
      else (case js_split d cs of [] \<Rightarrow> [[c]] | x # xs \<Rightarrow> (c # x) # xs))"

text \<open>\<open>parts.join(sep)\<close> on strings.\<close>

fun js_join :: "string \<Rightarrow> string list \<Rightarrow> string" where
  "js_join sep [] = []"
| "js_join sep [x] = x"
| "js_join sep (x # y # ys) = x @ sep @ js_join sep (y # ys)"

text \<open>Decimal numerals, as number-to-string conversion prints an integer.\<close>

definition digit :: "nat \<Rightarrow> char" where
  "digit d = ''0123456789'' ! d"

function show_nat :: "nat \<Rightarrow> string" where
  "show_nat n = (if n < 10 then [digit n] else show_nat (n div 10) @ [digit (n mod 10)])"
  by pat_completeness auto
termination
  by (relation "measure id") auto

declare show_nat.simps [simp del]

definition show_int :: "int \<Rightarrow> string" where
  "show_int i = (if i < 0 then CHR ''-'' # show_nat (nat (- i)) else show_nat (nat i))"

subsection \<open>What a plain object inherits\<close>

text \<open>
  The tables of the client (\<open>names\<close>, \<open>history\<close>, \<open>noids\<close>, \<open>avatars\<close>, \<open>callbacks\<close>) and the
  parsed messages are plain objects: a read \<open>d[k]\<close> and a test \<open>k in d\<close> also find the
  members of \<open>Object.prototype\<close>. These are its property names; all are functions except
  the accessor \<open>__proto__\<close>, whose value is \<open>Object.prototype\<close> itself.
\<close>

definition objectPrototypeKeys :: "string list" where
  "objectPrototypeKeys =
     [''constructor'', ''__defineGetter__'', ''__defineSetter__'', ''hasOwnProperty'',
      ''__lookupGetter__'', ''__lookupSetter__'', ''isPrototypeOf'', ''propertyIsEnumerable'',
      ''toString'', ''valueOf'', ''__proto__'', ''toLocaleString'']"

text \<open>The properties of \<open>{}\<close>: what every key reads as on an object without own properties.\<close>

definition objectPrototype :: "string \<rightharpoonup> jsval" where
  "objectPrototype k = (if k \<in> set objectPrototypeKeys then Some (JInherited k) else None)"

text \<open>
  A table whose values are JavaScript values is held as the map of all the properties a
  read finds, own and inherited: it starts as \<open>objectPrototype\<close>, an own property hides the
  inherited one, and \<open>delete\<close> uncovers it again. The assignment \<open>d['__proto__'] = v\<close> runs
  the inherited setter, which ignores a primitive and replaces the prototype of \<open>d\<close> by
  an object; the second is outside this model.
\<close>

definition putProp :: "string \<Rightarrow> jsval \<Rightarrow> (string \<rightharpoonup> jsval) \<Rightarrow> error + (string \<rightharpoonup> jsval)" where
  "putProp k v d =
     (if k = ''__proto__'' then
        (case v of
           JNull \<Rightarrow> Inl Unmodelled
         | JArr xs \<Rightarrow> Inl Unmodelled
         | JObj fs \<Rightarrow> Inl Unmodelled
         | JInherited n \<Rightarrow> Inl Unmodelled
         | _ \<Rightarrow> Inr d)
      else Inr (d(k \<mapsto> v)))"

definition dropProp :: "string \<Rightarrow> (string \<rightharpoonup> jsval) \<Rightarrow> (string \<rightharpoonup> jsval)" where
  "dropProp k d = d(k := objectPrototype k)"

subsection \<open>Coercions and property access\<close>

text \<open>
  \<open>ToString\<close>, used wherever a value becomes a property key or part of a template
  literal. A number prints as its decimal numeral, which is what JavaScript prints for
  the integers of this model (it turns to the exponent form from \<open>10^21\<close> on). An array prints as its elements joined by commas, \<open>undefined\<close> and \<open>null\<close>
  elements printing as nothing. An inherited function prints as its source text, where
  the function under \<open>constructor\<close> is named \<open>Object\<close>.
\<close>

fun js_toString :: "jsval \<Rightarrow> string" where
  "js_toString JUndefined = ''undefined''"
| "js_toString JNull = ''null''"
| "js_toString (JBool b) = (if b then ''true'' else ''false'')"
| "js_toString (JNum n) = show_int n"
| "js_toString (JStr s) = s"
| "js_toString (JArr xs) =
     js_join '','' (map (\<lambda>x. if x = JUndefined \<or> x = JNull then [] else js_toString x) xs)"
| "js_toString (JObj fs) = ''[object Object]''"
| "js_toString (JInherited k) =
     (if k = ''__proto__'' then ''[object Object]''
      else ''function '' @ (if k = ''constructor'' then ''Object'' else k) @ ''() { [native code] }'')"

text \<open>\<open>chunks.join("")\<close> on an array of values.\<close>

definition js_arrayJoin :: "string \<Rightarrow> jsval list \<Rightarrow> string" where
  "js_arrayJoin sep xs =
     js_join sep (map (\<lambda>x. if x = JUndefined \<or> x = JNull then [] else js_toString x) xs)"

text \<open>What \<open>if (v)\<close>, \<open>!v\<close> and \<open>v || w\<close> test.\<close>

fun js_truthy :: "jsval \<Rightarrow> bool" where
  "js_truthy JUndefined = False"
| "js_truthy JNull = False"
| "js_truthy (JBool b) = b"
| "js_truthy (JNum n) = (n \<noteq> 0)"
| "js_truthy (JStr s) = (s \<noteq> [])"
| "js_truthy (JArr xs) = True"
| "js_truthy (JObj fs) = True"
| "js_truthy (JInherited k) = True"

text \<open>The element stored under the property key \<open>k\<close> of an array or a string: key \<open>"i"\<close> for index \<open>i\<close>.\<close>

definition js_index :: "'a list \<Rightarrow> string \<Rightarrow> 'a option" where
  "js_index xs k = map_of (zip (map show_nat [0..<length xs]) xs) k"

text \<open>
  \<open>v[k]\<close> and \<open>v.k\<close>. Reading a property of \<open>undefined\<close> or \<open>null\<close> throws; a property
  that is nowhere on the prototype chain reads as \<open>undefined\<close>. An object reads its own
  property, else the member of \<open>Object.prototype\<close>. The members that booleans, numbers,
  strings and arrays inherit, and the properties of the inherited members themselves,
  are outside this model: a read under a key of \<open>Object.prototype\<close> there is \<open>Unmodelled\<close>,
  and the other members of \<open>String.prototype\<close>, \<open>Array.prototype\<close>, ... (\<open>split\<close>, \<open>push\<close>)
  have no key here.
\<close>

fun js_get :: "jsval \<Rightarrow> string \<Rightarrow> error + jsval" where
  "js_get JUndefined k = Inl TypeError"
| "js_get JNull k = Inl TypeError"
| "js_get (JBool b) k = (if k \<in> set objectPrototypeKeys then Inl Unmodelled else Inr JUndefined)"
| "js_get (JNum n) k = (if k \<in> set objectPrototypeKeys then Inl Unmodelled else Inr JUndefined)"
| "js_get (JStr s) k =
     (if k \<in> set objectPrototypeKeys then Inl Unmodelled
      else Inr (if k = ''length'' then JNum (int (length s))
                else (case js_index s k of None \<Rightarrow> JUndefined | Some c \<Rightarrow> JStr [c])))"
| "js_get (JArr xs) k =
     (if k \<in> set objectPrototypeKeys then Inl Unmodelled
      else Inr (if k = ''length'' then JNum (int (length xs))
                else (case js_index xs k of None \<Rightarrow> JUndefined | Some x \<Rightarrow> x)))"
| "js_get (JObj fs) k =
     Inr (case map_of fs k of
            Some x \<Rightarrow> x
          | None \<Rightarrow> (case objectPrototype k of None \<Rightarrow> JUndefined | Some x \<Rightarrow> x))"
| "js_get (JInherited n) k = Inl Unmodelled"

text \<open>\<open>k in v\<close>: throws unless \<open>v\<close> is an object; own and inherited properties count.\<close>

fun js_in :: "string \<Rightarrow> jsval \<Rightarrow> error + bool" where
  "js_in k (JObj fs) = Inr (map_of fs k \<noteq> None \<or> objectPrototype k \<noteq> None)"
| "js_in k (JArr xs) =
     (if k \<in> set objectPrototypeKeys then Inl Unmodelled
      else Inr (k = ''length'' \<or> js_index xs k \<noteq> None))"
| "js_in k (JInherited n) = Inl Unmodelled"
| "js_in k v = Inl TypeError"

text \<open>
  \<open>o.k = v\<close> on an object: an existing property keeps its place, a new one goes last. The
  file is in strict mode, where the assignment throws on a primitive.
\<close>

fun js_set :: "jsval \<Rightarrow> string \<Rightarrow> jsval \<Rightarrow> error + jsval" where
  "js_set (JObj fs) k v = Inr (JObj (AList.update k v fs))"
| "js_set (JArr xs) k v = Inl Unmodelled"
| "js_set (JInherited n) k v = Inl Unmodelled"
| "js_set u k v = Inl TypeError"

text \<open>\<open>v > 0\<close>, for the values whose conversion to a number is an integer or \<open>NaN\<close>.\<close>

fun js_gt0 :: "jsval \<Rightarrow> error + bool" where
  "js_gt0 (JNum n) = Inr (0 < n)"
| "js_gt0 (JBool b) = Inr b"
| "js_gt0 JNull = Inr False"
| "js_gt0 JUndefined = Inr False"
| "js_gt0 v = Inl Unmodelled"

text \<open>
  \<open>v == str\<close> (loose equality) against a string literal that is not a numeral: a string is
  compared as it is, an array or object after conversion to a string.
\<close>

fun js_looseEqStr :: "jsval \<Rightarrow> string \<Rightarrow> bool" where
  "js_looseEqStr (JStr s) t = (s = t)"
| "js_looseEqStr (JArr xs) t = (js_toString (JArr xs) = t)"
| "js_looseEqStr (JObj fs) t = (js_toString (JObj fs) = t)"
| "js_looseEqStr (JInherited n) t = (js_toString (JInherited n) = t)"
| "js_looseEqStr v t = False"

section \<open>The deframer: the scanning loop of \<open>processData\<close>\<close>

text \<open>
  \<open>processData(buf)\<close> declares \<open>framed\<close>, \<open>firstEOL\<close> and \<open>JSONFrame\<close> as locals, so every
  call starts unframed with an empty buffer. The loop below is its \<open>for\<close> loop over
  \<open>blob = buf.toString()\<close>; \<open>pkt\<close> is what is done with a completed frame (in the client,
  \<open>o = this.processElkoPacket(JSONFrame)\<close>) and \<open>w\<close> is whatever that call acts on. The loop
  returns \<open>framed\<close>, \<open>JSONFrame\<close> and \<open>w\<close> as they are when the blob is exhausted.
\<close>

fun frameLoop ::
  "(string \<Rightarrow> 'w \<Rightarrow> 'w) \<Rightarrow> bool \<Rightarrow> bool \<Rightarrow> string \<Rightarrow> 'w \<Rightarrow> string \<Rightarrow> bool \<times> string \<times> 'w" where
  "frameLoop pkt framed firstEOL JSONFrame w [] = (framed, JSONFrame, w)"
| "frameLoop pkt framed firstEOL JSONFrame w (c # blob) =
     (if framed then
        (if of_char c = (10::nat) then
           (if \<not> firstEOL then frameLoop pkt True True (JSONFrame @ [c]) w blob
            else frameLoop pkt False False [] (pkt (JSONFrame @ [c]) w) blob)
         else frameLoop pkt True firstEOL (JSONFrame @ [c]) w blob)
      else
        (if of_char c = (123::nat) then frameLoop pkt True False ''{'' w blob
         else frameLoop pkt False firstEOL JSONFrame w blob))"

text \<open>
  After the loop, \<open>if (framed) { o = this.processElkoPacket(JSONFrame); ... }\<close> hands over
  the unterminated buffer as well.
\<close>

definition frameScan :: "(string \<Rightarrow> 'w \<Rightarrow> 'w) \<Rightarrow> 'w \<Rightarrow> string \<Rightarrow> 'w" where
  "frameScan pkt w blob =
     (case frameLoop pkt False False [] w blob of
        (framed, JSONFrame, w') \<Rightarrow> if framed then pkt JSONFrame w' else w')"

text \<open>A well-formed frame: an opening brace, a payload without line feeds, two line feeds.\<close>

definition wfFrame :: "string \<Rightarrow> bool" where
  "wfFrame f =
     (case f of
        [] \<Rightarrow> False
      | c # r \<Rightarrow> c = CHR ''{'' \<and> 2 \<le> length r
                 \<and> drop (length r - 2) r = [LF, LF]
                 \<and> list_all (\<lambda>x. x \<noteq> LF) (take (length r - 2) r))"


section \<open>The client\<close>

text \<open>
  Reactions are functions of the caller. The model keeps a handle for each and records
  every invocation with its message argument, in order, among the observable effects of
  the client; what a reaction does itself is outside the model. The other effects
  recorded are the error-level log lines, the calls of \<open>net.connect\<close>, the timers armed
  with \<open>setTimeout\<close> and the calls of \<open>server.write\<close>.
\<close>

datatype effect =
    LogError string
  | NetConnect jsval jsval nat      \<comment> \<open>port, host, the socket made\<close>
  | Invoke nat "jsval option"       \<comment> \<open>reaction, message argument\<close>
  | SetTimeout nat                  \<comment> \<open>milliseconds\<close>
  | SocketWrite nat string          \<comment> \<open>socket, data\<close>

record bot =
  host :: jsval
  port :: jsval
  username :: jsval
  server :: "nat option"
  connected :: bool
  shouldReconnect :: bool
  callbacks :: "string \<rightharpoonup> nat list"
  names :: "string \<rightharpoonup> string"
  history :: "string \<rightharpoonup> jsval"
  noids :: "string \<rightharpoonup> jsval"
  avatars :: "string \<rightharpoonup> jsval"
  effects :: "effect list"

text \<open>
  A method that can throw returns the error or its value, and the client as the method
  left it: what was assigned before a throw stays assigned.
\<close>

type_synonym 'a res = "(error + 'a) \<times> bot"

definition orThrow :: "error + 'a \<Rightarrow> bot \<Rightarrow> ('a \<Rightarrow> 'b res) \<Rightarrow> 'b res" where
  "orThrow r st k = (case r of Inl e \<Rightarrow> (Inl e, st) | Inr v \<Rightarrow> k v)"

definition andThen :: "'a res \<Rightarrow> ('a \<Rightarrow> bot \<Rightarrow> 'b res) \<Rightarrow> 'b res" where
  "andThen m k = (case m of (Inl e, st) \<Rightarrow> (Inl e, st) | (Inr v, st) \<Rightarrow> k v st)"

text \<open>
  \<open>names\<close> maps to strings and \<open>callbacks\<close> to lists of reactions, so these two are held as
  the maps of their own properties, and what they inherit is added where they are read
  with a key that is not a literal of the program. \<open>history\<close>, \<open>noids\<close> and \<open>avatars\<close> are
  held with the inherited members in the map, and \<open>{}\<close> is \<open>objectPrototype\<close>.
\<close>

definition clearState :: "bot \<Rightarrow> bot" where
  "clearState st = st\<lparr>names := Map.empty, history := objectPrototype,
                      noids := objectPrototype, avatars := objectPrototype\<rparr>"

definition HabiBot_new :: "jsval \<Rightarrow> jsval \<Rightarrow> jsval \<Rightarrow> bot" where
  "HabiBot_new h p u =
     \<lparr>host = h, port = p, username = u, server = None, connected = False,
      shouldReconnect = True,
      callbacks = [''connected'' \<mapsto> [], ''delete'' \<mapsto> [], ''disconnected'' \<mapsto> [],
                   ''enteredRegion'' \<mapsto> [], ''msg'' \<mapsto> []],
      names = Map.empty, history = objectPrototype, noids = objectPrototype,
      avatars = objectPrototype, effects = []\<rparr>"

text \<open>
  \<open>on(eventType, callback)\<close>: \<open>eventType in this.callbacks\<close> also holds for an inherited
  key, and then \<open>this.callbacks[eventType].push\<close> is not a function.
\<close>

definition on :: "string \<Rightarrow> nat \<Rightarrow> bot \<Rightarrow> unit res" where
  "on eventType callback st =
     (case callbacks st eventType of
        Some cbs \<Rightarrow> (Inr (), st\<lparr>callbacks := (callbacks st)(eventType \<mapsto> cbs @ [callback])\<rparr>)
      | None \<Rightarrow>
          if eventType \<in> set objectPrototypeKeys then (Inl TypeError, st)
          else (Inr (), st\<lparr>callbacks := (callbacks st)(eventType \<mapsto> [callback])\<rparr>))"

text \<open>Calling every reaction of a list, in order, with the same argument.\<close>

definition invokeAll :: "nat list \<Rightarrow> jsval option \<Rightarrow> bot \<Rightarrow> bot" where
  "invokeAll cbs arg st = st\<lparr>effects := effects st @ map (\<lambda>cb. Invoke cb arg) cbs\<rparr>"

subsection \<open>The alias table\<close>

text \<open>
  \<open>scope.names[k] = s\<close> with a string \<open>s\<close>: under the key \<open>__proto__\<close> the inherited setter
  runs and ignores the string, so no property is made. \<open>scope.names[k]\<close> reads the own
  property, else the inherited member.
\<close>

definition setName :: "string \<Rightarrow> string \<Rightarrow> (string \<rightharpoonup> string) \<Rightarrow> (string \<rightharpoonup> string)" where
  "setName k s nm = (if k = ''__proto__'' then nm else nm(k \<mapsto> s))"

definition getName :: "(string \<rightharpoonup> string) \<Rightarrow> string \<Rightarrow> jsval" where
  "getName nm k =
     (case nm k of
        Some r \<Rightarrow> JStr r
      | None \<Rightarrow> (case objectPrototype k of None \<Rightarrow> JUndefined | Some x \<Rightarrow> x))"

text \<open>
  \<open>addNames(s)\<close>: every dash-segment of \<open>s\<close>, and every dot-piece of each segment, is
  assigned \<open>s\<close> in \<open>names\<close>. \<open>clearNames(s)\<close> deletes the same keys.
\<close>

definition addNames :: "string \<Rightarrow> (string \<rightharpoonup> string) \<Rightarrow> (string \<rightharpoonup> string)" where
  "addNames s nm =
     foldl (\<lambda>nm dash. foldl (\<lambda>nm dot. setName dot s nm) (setName dash s nm) (js_split CHR ''.'' dash))
           nm (js_split CHR ''-'' s)"

definition clearNames :: "string \<Rightarrow> (string \<rightharpoonup> string) \<Rightarrow> (string \<rightharpoonup> string)" where
  "clearNames s nm =
     foldl (\<lambda>nm dash. foldl (\<lambda>nm dot. nm(dot := None)) (nm(dash := None)) (js_split CHR ''.'' dash))
           nm (js_split CHR ''-'' s)"

text \<open>
  Both methods call \<open>s.split\<close>, which only a string has: any other argument throws.
\<close>

definition addNamesOf :: "jsval \<Rightarrow> bot \<Rightarrow> unit res" where
  "addNamesOf v st =
     (case v of JStr s \<Rightarrow> (Inr (), st\<lparr>names := addNames s (names st)\<rparr>)
              | _ \<Rightarrow> (Inl TypeError, st))"

definition clearNamesOf :: "jsval \<Rightarrow> bot \<Rightarrow> unit res" where
  "clearNamesOf v st =
     (case v of JStr s \<Rightarrow> (Inr (), st\<lparr>names := clearNames s (names st)\<rparr>)
              | _ \<Rightarrow> (Inl TypeError, st))"

text \<open>
  \<open>substituteName(s)\<close> is \<open>this.names[s] || s\<close>: an empty alias value falls through to \<open>s\<close>,
  and an inherited member is returned as the alias.
\<close>

definition substituteName :: "bot \<Rightarrow> jsval \<Rightarrow> jsval" where
  "substituteName st s =
     (let r = getName (names st) (js_toString s) in if js_truthy r then r else s)"

subsection \<open>The mirror: \<open>scanForRefs\<close>\<close>

text \<open>\<open>o.obj.mods[0].type\<close>, read afresh at each of its two uses.\<close>

definition firstModType :: "jsval \<Rightarrow> error + jsval" where
  "firstModType obj =
     (case js_get obj ''mods'' of Inl e \<Rightarrow> Inl e | Inr mods \<Rightarrow>
      (case js_get mods ''0'' of Inl e \<Rightarrow> Inl e | Inr m0 \<Rightarrow> js_get m0 ''type''))"

text \<open>
  \<open>if ('mods' in o.obj && o.obj.mods.length > 0) scope.noids[o.obj.mods[0].noid] = o.obj\<close>
\<close>

definition indexNoid :: "jsval \<Rightarrow> bot \<Rightarrow> unit res" where
  "indexNoid obj st =
     orThrow (js_in ''mods'' obj) st (\<lambda>hasMods.
       if \<not> hasMods then (Inr (), st)
       else
         orThrow (js_get obj ''mods'') st (\<lambda>mods.
         orThrow (js_get mods ''length'') st (\<lambda>len.
         orThrow (js_gt0 len) st (\<lambda>nonempty.
           if \<not> nonempty then (Inr (), st)
           else
             orThrow (js_get mods ''0'') st (\<lambda>m0.
             orThrow (js_get m0 ''noid'') st (\<lambda>noid.
             orThrow (putProp (js_toString noid) obj (noids st)) st (\<lambda>noids1.
               (Inr (), st\<lparr>noids := noids1\<rparr>))))))))"

text \<open>
  \<open>if (o.you) { ... }\<close>: the reserved aliases \<open>ME\<close> and \<open>USER\<close>, then the \<open>enteredRegion\<close>
  reactions. \<open>split[1]\<close> of a ref without a dash is \<open>undefined\<close> and prints so.
\<close>

definition segmentOr :: "string list \<Rightarrow> nat \<Rightarrow> string" where
  "segmentOr split i = (if i < length split then split ! i else ''undefined'')"

definition enterAsYou :: "jsval \<Rightarrow> string \<Rightarrow> bot \<Rightarrow> unit res" where
  "enterAsYou msg ref st =
     orThrow (js_get msg ''you'') st (\<lambda>you.
       if \<not> js_truthy you then (Inr (), st)
       else
         (let split = js_split CHR ''-'' ref;
              st1 = st\<lparr>names := (names st)(''ME'' \<mapsto> ref)\<rparr>;
              st2 = st1\<lparr>names := (names st1)(''USER'' \<mapsto> segmentOr split 0 @ ''-'' @ segmentOr split 1)\<rparr>
          in (case callbacks st2 ''enteredRegion'' of
                None \<Rightarrow> (Inl TypeError, st2)
              | Some cbs \<Rightarrow> (Inr (), invokeAll cbs (Some msg) st2))))"

definition markGhost :: "jsval \<Rightarrow> string \<Rightarrow> bot \<Rightarrow> unit res" where
  "markGhost obj ref st =
     orThrow (firstModType obj) st (\<lambda>t.
       if t = JStr ''Ghost'' then (Inr (), st\<lparr>names := (names st)(''GHOST'' \<mapsto> ref)\<rparr>)
       else (Inr (), st))"

definition indexAvatar :: "jsval \<Rightarrow> bot \<Rightarrow> unit res" where
  "indexAvatar obj st =
     orThrow (firstModType obj) st (\<lambda>t.
       if t = JStr ''Avatar'' then
         orThrow (js_get obj ''name'') st (\<lambda>name.
         orThrow (putProp (js_toString name) obj (avatars st)) st (\<lambda>avatars1.
           (Inr (), st\<lparr>avatars := avatars1\<rparr>)))
       else (Inr (), st))"

text \<open>
  The body of \<open>if (o.op === 'make' || o.op == 'HEREIS_$')\<close>. \<open>addNames(ref)\<close> throws unless
  the ref is a string, so from there on it is one.
\<close>

definition introduce :: "jsval \<Rightarrow> bot \<Rightarrow> unit res" where
  "introduce msg st =
     orThrow (js_get msg ''obj'') st (\<lambda>obj.
     orThrow (js_get obj ''ref'') st (\<lambda>ref.
     andThen (addNamesOf ref st) (\<lambda>_ st1.
       (let r = js_toString ref
        in orThrow (putProp r msg (history st1)) st1 (\<lambda>history1.
           andThen (indexNoid obj (st1\<lparr>history := history1\<rparr>)) (\<lambda>_ st3.
           andThen (enterAsYou msg r st3) (\<lambda>_ st4.
           andThen (markGhost obj r st4) (\<lambda>_ st5.
             indexAvatar obj st5))))))))"

text \<open>
  \<open>util.parseElko\<close> is not among the sources here: the parser is a parameter, a function
  from the frame text to the parsed message or to what it throws.
\<close>

definition scanForRefs :: "(string \<Rightarrow> error + jsval) \<Rightarrow> string \<Rightarrow> bot \<Rightarrow> jsval res" where
  "scanForRefs parseElko s st =
     orThrow (parseElko s) st (\<lambda>msg.
     orThrow (js_get msg ''to'') st (\<lambda>to.
     andThen (if js_truthy to then addNamesOf to st else (Inr (), st)) (\<lambda>_ st1.
     orThrow (js_get msg ''op'') st1 (\<lambda>op.
       if \<not> js_truthy op then (Inr JUndefined, st1)
       else
         orThrow (if op = JStr ''HEREIS_$''
                  then (case js_get msg ''object'' of Inl e \<Rightarrow> Inl e
                        | Inr object \<Rightarrow> js_set msg ''obj'' object)
                  else Inr msg) st1 (\<lambda>msg1.
           if op = JStr ''make'' \<or> js_looseEqStr op ''HEREIS_$''
           then andThen (introduce msg1 st1) (\<lambda>_ st2. (Inr msg1, st2))
           else (Inr msg1, st1))))))"

definition processElkoPacket :: "(string \<Rightarrow> error + jsval) \<Rightarrow> string \<Rightarrow> bot \<Rightarrow> jsval res" where
  "processElkoPacket parseElko s st = scanForRefs parseElko s st"

subsection \<open>\<open>processData\<close>\<close>

text \<open>
  The tail of \<open>processData\<close>, after the scanning loop: \<open>o\<close> is what the last call of
  \<open>processElkoPacket\<close> returned, or \<open>null\<close> when there was none.
\<close>

definition forgetDeleted :: "jsval \<Rightarrow> bot \<Rightarrow> unit res" where
  "forgetDeleted msg st =
     orThrow (js_get msg ''to'') st (\<lambda>to.
       (let obj = (case history st (js_toString to) of None \<Rightarrow> JUndefined | Some v \<Rightarrow> v)
        in andThen (clearNamesOf to st) (\<lambda>_ st1.
           orThrow (js_in ''obj'' obj) st1 (\<lambda>hasObj.
           orThrow (if hasObj
                    then (case js_get obj ''obj'' of Inl e \<Rightarrow> Inl e | Inr oo \<Rightarrow>
                          (case firstModType oo of Inl e \<Rightarrow> Inl e | Inr t \<Rightarrow>
                             if t = JStr ''Avatar''
                             then (case js_get oo ''name'' of Inl e \<Rightarrow> Inl e
                                   | Inr name \<Rightarrow> Inr (Some (js_toString name)))
                             else Inr None))
                    else Inr None) st1 (\<lambda>gone.
             (let st2 = (case gone of None \<Rightarrow> st1
                         | Some name \<Rightarrow> st1\<lparr>avatars := dropProp name (avatars st1)\<rparr>)
              in (Inr (), st2\<lparr>history := dropProp (js_toString to) (history st2)\<rparr>)))))))"

text \<open>
  \<open>o.op in this.callbacks\<close> also holds for an inherited key; the loop
  \<open>for (var i in this.callbacks[o.op])\<close> over the inherited member has nothing to visit, so
  only a list of its own is invoked.
\<close>

definition dispatch :: "jsval \<Rightarrow> bot \<Rightarrow> unit res" where
  "dispatch msg st =
     (if msg = JNull \<or> msg = JUndefined then (Inr (), st)
      else
        orThrow (js_get msg ''op'') st (\<lambda>op.
          (let st1 = (case callbacks st (js_toString op) of
                        None \<Rightarrow> st
                      | Some cbs \<Rightarrow> invokeAll cbs (Some msg) st);
               st2 = (case callbacks st1 ''msg'' of
                        None \<Rightarrow> st1
                      | Some cbs \<Rightarrow> invokeAll cbs (Some msg) st1)
           in if op = JStr ''delete'' then forgetDeleted msg st2 else (Inr (), st2))))"

text \<open>
  What the scanning loop of \<open>processData\<close> does with a completed frame:
  \<open>o = this.processElkoPacket(JSONFrame)\<close>. A throw ends the whole call, so once a frame
  has thrown no later frame of the chunk is handed over. Beside \<open>o\<close> and the client, the
  frames handed to \<open>processElkoPacket\<close> are recorded in order (the frame that throws
  included).
\<close>

definition handFrame ::
  "(string \<Rightarrow> error + jsval) \<Rightarrow> string \<Rightarrow> string list \<times> jsval res \<Rightarrow> string list \<times> jsval res" where
  "handFrame parseElko JSONFrame w =
     (case w of
        (handed, (Inl e, st)) \<Rightarrow> (handed, (Inl e, st))
      | (handed, (Inr _, st)) \<Rightarrow> (handed @ [JSONFrame], processElkoPacket parseElko JSONFrame st))"

text \<open>The loop of one call, with its fallback: \<open>o\<close> starts as \<open>null\<close>.\<close>

definition processData_loop ::
  "(string \<Rightarrow> error + jsval) \<Rightarrow> string \<Rightarrow> bot \<Rightarrow> string list \<times> jsval res" where
  "processData_loop parseElko blob st = frameScan (handFrame parseElko) ([], (Inr JNull, st)) blob"

text \<open>\<open>processData(buf)\<close>: the loop, then one dispatch on the last \<open>o\<close>.\<close>

definition processData :: "(string \<Rightarrow> error + jsval) \<Rightarrow> string \<Rightarrow> bot \<Rightarrow> unit res" where
  "processData parseElko blob st =
     andThen (snd (processData_loop parseElko blob st)) (\<lambda>msg st1. dispatch msg st1)"

text \<open>The frames one call of \<open>processData\<close> emits: those it hands to \<open>processElkoPacket\<close>.\<close>

definition emittedFrames :: "(string \<Rightarrow> error + jsval) \<Rightarrow> string \<Rightarrow> bot \<Rightarrow> string list" where
  "emittedFrames parseElko blob st = fst (processData_loop parseElko blob st)"

text \<open>
  A stream delivered in chunks: one call of \<open>processData\<close> per chunk, each on the client as
  the call before left it. The result is the frames emitted by all the calls, and the
  outcome; it ends at the first call that throws.
\<close>

fun feedChunks ::
  "(string \<Rightarrow> error + jsval) \<Rightarrow> string list \<Rightarrow> bot \<Rightarrow> string list \<times> unit res" where
  "feedChunks parseElko [] st = ([], (Inr (), st))"
| "feedChunks parseElko (chunk # chunks) st =
     (case processData parseElko chunk st of
        (Inl e, st1) \<Rightarrow> (emittedFrames parseElko chunk st, (Inl e, st1))
      | (Inr _, st1) \<Rightarrow>
          (case feedChunks parseElko chunks st1 of
             (handed, r) \<Rightarrow> (emittedFrames parseElko chunk st @ handed, r)))"

subsection \<open>Read accessors\<close>

text \<open>\<open>getAvatar()\<close>: \<open>this.history[this.names.ME].obj\<close> when \<open>'ME' in this.names\<close>, else \<open>null\<close>.\<close>

definition getAvatar :: "bot \<Rightarrow> error + jsval" where
  "getAvatar st =
     (case names st ''ME'' of
        None \<Rightarrow> Inr JNull
      | Some ref \<Rightarrow> js_get (case history st ref of None \<Rightarrow> JUndefined | Some v \<Rightarrow> v) ''obj'')"

text \<open>\<open>isGhosted()\<close> returns \<open>avatar.mods[0].amAGhost\<close> as it is; callers test it.\<close>

definition isGhosted :: "bot \<Rightarrow> error + jsval" where
  "isGhosted st =
     (case getAvatar st of Inl e \<Rightarrow> Inl e | Inr avatar \<Rightarrow>
        if avatar \<noteq> JNull \<and> avatar \<noteq> JUndefined then
          (case js_get avatar ''mods'' of Inl e \<Rightarrow> Inl e | Inr mods \<Rightarrow>
           (case js_get mods ''0'' of Inl e \<Rightarrow> Inl e | Inr m0 \<Rightarrow> js_get m0 ''amAGhost''))
        else Inr (JBool False))"

text \<open>
  \<open>getNoid(noid)\<close>: \<open>noid in this.noids\<close> also holds for a key that the table inherits, and
  the inherited member is then returned, without the log line.
\<close>

definition getNoid :: "jsval \<Rightarrow> bot \<Rightarrow> jsval \<times> bot" where
  "getNoid noid st =
     (case noids st (js_toString noid) of
        Some v \<Rightarrow> (v, st)
      | None \<Rightarrow> (JNull, st\<lparr>effects := effects st @ [LogError ''Could not find noid: %s'']\<rparr>))"

text \<open>\<open>getMod(noid)\<close> is \<open>this.getNoid(noid).mods[0]\<close>.\<close>

definition getMod :: "jsval \<Rightarrow> bot \<Rightarrow> jsval res" where
  "getMod noid st =
     (case getNoid noid st of (v, st1) \<Rightarrow>
        orThrow (js_get v ''mods'') st1 (\<lambda>mods.
        orThrow (js_get mods ''0'') st1 (\<lambda>m0. (Inr m0, st1))))"

subsection \<open>Connection\<close>

fun isNetConnect :: "effect \<Rightarrow> bool" where
  "isNetConnect (NetConnect p h s) = True"
| "isNetConnect e = False"

text \<open>
  \<open>connect()\<close>. In the first branch the arguments of \<open>log.error\<close> are evaluated before the
  call, and the last of them is written \<open>this.host. this.port\<close>: the property \<open>port\<close> of the
  property \<open>this\<close> of the host. The socket that \<open>net.connect\<close> returns is named by the
  number of sockets made before it.
\<close>

definition connect :: "bot \<Rightarrow> unit res" where
  "connect st =
     (if host st = JUndefined \<or> port st = JUndefined then
        orThrow (case js_get (host st) ''this'' of Inl e \<Rightarrow> Inl e
                 | Inr t \<Rightarrow> js_get t ''port'') st (\<lambda>_.
          (Inr (), st\<lparr>effects := effects st @ [LogError ''No host or port specified: %s:%d'']\<rparr>))
      else if \<not> connected st then
        (let st1 = clearState st;
             sock = length (filter isNetConnect (effects st1))
         in (Inr (), st1\<lparr>server := Some sock,
                         effects := effects st1 @ [NetConnect (port st1) (host st1) sock]\<rparr>))
      else (Inr (), st))"

text \<open>The callback given to \<open>net.connect\<close>, run when the connection is established.\<close>

definition onConnect :: "bot \<Rightarrow> bot" where
  "onConnect st =
     (let st1 = st\<lparr>connected := True\<rparr>
      in (case callbacks st1 ''connected'' of
            None \<Rightarrow> st1
          | Some cbs \<Rightarrow> invokeAll cbs None st1))"

definition onDisconnect :: "bot \<Rightarrow> unit res" where
  "onDisconnect st =
     (let st1 = st\<lparr>connected := False\<rparr>;
          st2 = (case callbacks st1 ''disconnected'' of
                   None \<Rightarrow> st1
                 | Some cbs \<Rightarrow> invokeAll cbs None st1)
      in if shouldReconnect st2 then connect st2 else (Inr (), st2))"

subsection \<open>State substitution\<close>

text \<open>
  \<open>substituteState(m)\<close> declares \<open>obj\<close> and \<open>mod\<close> with \<open>var\<close> inside its loops: they belong to
  the whole call, start \<open>undefined\<close>, and keep their values from one chunk and one field to
  the next. They travel below as the pair after the value.

  The first key of a path (\<open>first\<close> is true): when the history has no record under the
  resolved key, the chunk is replaced by \<open>this.names[varseg] || chunks[i]\<close> and the key loop
  is left (the flag returned is that \<open>break\<close>). Both operands of \<open>&\<close> are evaluated.
\<close>

definition resolveFirst ::
  "bot \<Rightarrow> string \<Rightarrow> string \<Rightarrow> jsval \<Rightarrow> jsval \<Rightarrow> error + (bool \<times> jsval \<times> jsval \<times> jsval)" where
  "resolveFirst st chunk varseg obj modv =
     (case history st (js_toString (substituteName st (JStr varseg))) of
        None \<Rightarrow>
          Inr (True,
               (let r = getName (names st) varseg in if js_truthy r then r else JStr chunk),
               obj, modv)
      | Some value \<Rightarrow>
          (case js_get value ''obj'' of Inl e \<Rightarrow> Inl e | Inr vobj \<Rightarrow>
             if vobj \<noteq> JUndefined then
               (case js_get vobj ''mods'' of Inl e \<Rightarrow> Inl e | Inr mods \<Rightarrow>
                (case js_get mods ''length'' of Inl e \<Rightarrow> Inl e | Inr len \<Rightarrow>
                   if mods \<noteq> JUndefined \<and> len = JNum 1 then
                     (case js_get mods ''0'' of Inl e \<Rightarrow> Inl e
                      | Inr m0 \<Rightarrow> Inr (False, value, vobj, m0))
                   else Inr (False, value, vobj, modv)))
             else Inr (False, value, obj, modv)))"

text \<open>
  A later key: the first mod's field, else the object's field, else the property of the
  value resolved so far.
\<close>

definition nextValue :: "jsval \<Rightarrow> jsval \<Rightarrow> jsval \<Rightarrow> string \<Rightarrow> error + jsval" where
  "nextValue obj modv value varseg =
     (case (if modv \<noteq> JUndefined then js_get modv varseg else Inr JUndefined) of
        Inl e \<Rightarrow> Inl e
      | Inr a \<Rightarrow>
          if modv \<noteq> JUndefined \<and> a \<noteq> JUndefined then Inr a
          else
            (case (if obj \<noteq> JUndefined then js_get obj varseg else Inr JUndefined) of
               Inl e \<Rightarrow> Inl e
             | Inr b \<Rightarrow>
                 if obj \<noteq> JUndefined \<and> b \<noteq> JUndefined then Inr b
                 else js_get value varseg))"

fun resolveRest :: "jsval \<Rightarrow> jsval \<Rightarrow> jsval \<Rightarrow> string list \<Rightarrow> error + jsval" where
  "resolveRest obj modv value [] = Inr value"
| "resolveRest obj modv value (varseg # keys) =
     (case nextValue obj modv value varseg of
        Inl e \<Rightarrow> Inl e
      | Inr v \<Rightarrow> resolveRest obj modv v keys)"

text \<open>One pass of the loop over \<open>i\<close>: the new \<open>chunks[i]\<close>, and \<open>obj\<close> and \<open>mod\<close> after it.\<close>

definition resolveChunk ::
  "bot \<Rightarrow> string \<Rightarrow> jsval \<times> jsval \<Rightarrow> error + (jsval \<times> jsval \<times> jsval)" where
  "resolveChunk st chunk vars =
     (case vars of (obj, modv) \<Rightarrow>
        (case js_split CHR ''.'' chunk of
           [] \<Rightarrow> Inr (JStr chunk, obj, modv)
         | varseg # keys \<Rightarrow>
             (case resolveFirst st chunk varseg obj modv of
                Inl e \<Rightarrow> Inl e
              | Inr (brk, value, obj1, modv1) \<Rightarrow>
                  if brk then Inr (value, obj1, modv1)
                  else (case resolveRest obj1 modv1 value keys of
                          Inl e \<Rightarrow> Inl e
                        | Inr v \<Rightarrow> Inr (v, obj1, modv1)))))"

fun resolveChunks ::
  "bot \<Rightarrow> string list \<Rightarrow> jsval \<times> jsval \<Rightarrow> error + (jsval list \<times> jsval \<times> jsval)" where
  "resolveChunks st [] vars = Inr ([], vars)"
| "resolveChunks st (chunk # chunks) vars =
     (case resolveChunk st chunk vars of
        Inl e \<Rightarrow> Inl e
      | Inr (v, vars1) \<Rightarrow>
          (case resolveChunks st chunks vars1 of
             Inl e \<Rightarrow> Inl e
           | Inr (vs, vars2) \<Rightarrow> Inr (v # vs, vars2)))"

text \<open>
  The new value of one field whose string \<open>prop\<close> contains a dollar sign: the resolved value
  itself when the chunks are exactly an empty prefix and one path, else the chunks joined.
\<close>

definition substituteField ::
  "bot \<Rightarrow> string \<Rightarrow> jsval \<times> jsval \<Rightarrow> error + (jsval \<times> jsval \<times> jsval)" where
  "substituteField st prop vars =
     (case js_split CHR ''$'' prop of
        [] \<Rightarrow> Inr (JStr [], vars)
      | prefix # paths \<Rightarrow>
          (case resolveChunks st paths vars of
             Inl e \<Rightarrow> Inl e
           | Inr (vs, vars1) \<Rightarrow>
               (let chunks = JStr prefix # vs
                in if length chunks = 2 \<and> prefix = []
                   then Inr (chunks ! 1, vars1)
                   else Inr (JStr (js_arrayJoin [] chunks), vars1))))"

text \<open>
  The loop \<open>for (var name in m)\<close> over the keys the object has when the loop starts; only
  values of existing keys are assigned, so the keys and their order do not change. A throw
  leaves the fields already assigned as they are.
\<close>

fun substituteLoop ::
  "bot \<Rightarrow> string list \<Rightarrow> (string \<times> jsval) list \<Rightarrow> jsval \<times> jsval
     \<Rightarrow> (error + unit) \<times> (string \<times> jsval) list" where
  "substituteLoop st [] m vars = (Inr (), m)"
| "substituteLoop st (name # rest) m vars =
     (case map_of m name of
        Some (JStr prop) \<Rightarrow>
          if CHR ''$'' \<in> set prop then
            (case substituteField st prop vars of
               Inl e \<Rightarrow> (Inl e, m)
             | Inr (v, vars1) \<Rightarrow> substituteLoop st rest (AList.update name v m) vars1)
          else substituteLoop st rest m vars
      | _ \<Rightarrow> substituteLoop st rest m vars)"

definition substituteState ::
  "bot \<Rightarrow> (string \<times> jsval) list \<Rightarrow> (error + unit) \<times> (string \<times> jsval) list" where
  "substituteState st m = substituteLoop st (map fst m) m (JUndefined, JUndefined)"

subsection \<open>The unit of work of \<open>sendWithDelay\<close>\<close>

text \<open>
  The command object belongs to the caller and is changed in place, so commands live in a
  store and \<open>sendWithDelay\<close> gets a reference. The function below is the executor of the
  promise that the queued unit makes, run when the queue starts the unit: it rejects when
  the client is not connected, a throw inside it rejects the promise with what was
  thrown, and otherwise it leaves a timer armed for the serialized message.
  \<open>JSON.stringify\<close> is a parameter. A reference without an object in the store stands for
  a call without a command object, whose \<open>obj.to\<close> throws.
\<close>

type_synonym store = "nat \<rightharpoonup> (string \<times> jsval) list"

datatype unitState =
    RejectedNotConnected string
  | RejectedThrown error
  | Waiting string nat               \<comment> \<open>the serialized message, the delay of its timer\<close>

text \<open>\<open>if (obj.to) { obj.to = scope.substituteName(obj.to); }\<close>\<close>

definition resolveTo :: "bot \<Rightarrow> (string \<times> jsval) list \<Rightarrow> (string \<times> jsval) list" where
  "resolveTo st m =
     (let to = (case map_of m ''to'' of None \<Rightarrow> JUndefined | Some v \<Rightarrow> v)
      in if js_truthy to then AList.update ''to'' (substituteName st to) m else m)"

definition sendWithDelay_unit ::
  "(jsval \<Rightarrow> string) \<Rightarrow> nat \<Rightarrow> nat \<Rightarrow> bot \<Rightarrow> store \<Rightarrow> unitState \<times> bot \<times> store" where
  "sendWithDelay_unit stringify ref delayMillis st heap =
     (if \<not> connected st then
        (RejectedNotConnected (''Not connected to '' @ js_toString (host st) @ '':''
                                 @ js_toString (port st)), st, heap)
      else
        (case heap ref of
           None \<Rightarrow> (RejectedThrown TypeError, st, heap)
         | Some m \<Rightarrow>
             (let m1 = resolveTo st m
              in (case substituteState st m1 of
                    (Inl e, m2) \<Rightarrow> (RejectedThrown e, st, heap(ref \<mapsto> m2))
                  | (Inr _, m2) \<Rightarrow>
                      (Waiting (stringify (JObj m2)) delayMillis,
                       st\<lparr>effects := effects st @ [SetTimeout delayMillis]\<rparr>,
                       heap(ref \<mapsto> m2))))))"

text \<open>
  The timer's callback: \<open>scope.server.write(msg + '\n\n', 'UTF8', ...)\<close>, with no test of
  \<open>connected\<close>. The unit resolves when the socket calls back.
\<close>

definition sendWithDelay_timer :: "string \<Rightarrow> bot \<Rightarrow> unit res" where
  "sendWithDelay_timer msg st =
     (case server st of
        None \<Rightarrow> (Inl TypeError, st)
      | Some sock \<Rightarrow> (Inr (), st\<lparr>effects := effects st @ [SocketWrite sock (msg @ [LF, LF])]\<rparr>))"

subsection \<open>The dispatch queue\<close>

text \<open>
  What is recorded of a unit of the queue: the command it sends, the time it became the
  active unit, what its executor did, the time and the data of its write to the socket if
  there was one, and the time it completed or failed (none if it never settles). Times
  are in milliseconds.
\<close>

record unitLog =
  unitRef :: nat
  activeFrom :: nat
  executor :: unitState
  wrote :: "(nat \<times> string) option"
  activeTo :: "nat option"

text \<open>
  Modelled from the spec: \<open>sendWithDelay\<close> hands its unit to \<open>this.actionQueue\<close>, a
  \<open>new Queue(1, Infinity)\<close> of the library \<open>promise-queue\<close>, which is not among the
  sources. The spec describes the queue (4.5 and 5): unbounded depth; all queued
  operations execute in strict FIFO order; a unit runs when it becomes the sole active
  unit (concurrency strictly 1), which is when the unit before it has completed or
  failed; a unit suspends until its delay has elapsed and its write has completed.

  A queue entry is the reference of the command, the \<open>delayMillis\<close> of the call, and by
  how much the timer fires late (a timer fires no earlier than its delay). \<open>now\<close> is the
  time at which the first entry becomes active. The unit is the code of the repository:
  \<open>sendWithDelay_unit\<close> when the entry becomes active, and for a unit left waiting
  \<open>sendWithDelay_timer\<close> when its timer fires, which completes the unit. A rejected unit
  has failed at once. A timer callback that throws never settles its promise, and the
  queue starts no further unit. Nothing but the queue acts on the client meanwhile.
\<close>

fun runQueue ::
  "(jsval \<Rightarrow> string) \<Rightarrow> (nat \<times> nat \<times> nat) list \<Rightarrow> nat \<Rightarrow> bot \<Rightarrow> store
     \<Rightarrow> unitLog list \<times> bot \<times> store" where
  "runQueue stringify [] now st heap = ([], st, heap)"
| "runQueue stringify ((ref, delayMillis, late) # queue) now st heap =
     (case sendWithDelay_unit stringify ref delayMillis st heap of
        (Waiting msg d, st1, heap1) \<Rightarrow>
          (case sendWithDelay_timer msg st1 of
             (Inl e, st2) \<Rightarrow>
               ([\<lparr>unitRef = ref, activeFrom = now, executor = Waiting msg d,
                  wrote = None, activeTo = None\<rparr>], st2, heap1)
           | (Inr _, st2) \<Rightarrow>
               (case runQueue stringify queue (now + d + late) st2 heap1 of
                  (log, st3, heap3) \<Rightarrow>
                    (\<lparr>unitRef = ref, activeFrom = now, executor = Waiting msg d,
                      wrote = Some (now + d + late, msg @ [LF, LF]),
                      activeTo = Some (now + d + late)\<rparr> # log, st3, heap3)))
      | (u, st1, heap1) \<Rightarrow>
          (case runQueue stringify queue now st1 heap1 of
             (log, st3, heap3) \<Rightarrow>
               (\<lparr>unitRef = ref, activeFrom = now, executor = u,
                 wrote = None, activeTo = Some now\<rparr> # log, st3, heap3)))"

subsection \<open>\<open>ensureCorporated\<close>\<close>

text \<open>
  \<open>tryEnsureCorporated(curTry)\<close> returns a promise; when the avatar is a ghost and no
  \<open>GHOST\<close> alias is known, a timer of 2000 ms is armed whose callback calls
  \<open>scope.ensureCorporated(curTry + 1)\<close> and passes its outcome on. \<open>ensureCorporated\<close> takes no
  parameter: its body is \<open>return this.tryEnsureCorporated(0)\<close>.

  The recursion runs through timers, so it has fuel: the number of timers allowed to
  fire. \<open>botAt k\<close> is the client as the \<open>k\<close>-th check finds it (the mirror may change while
  a timer runs). The result is the state of the promise and the delays of the timers
  armed, in order; \<open>CorpPending\<close> is a promise still waiting for a timer when the fuel is
  used up, and \<open>CorpDelegated\<close> stands for the promise that \<open>this.corporate()\<close> returns.
\<close>

datatype corpResult =
    CorpResolved
  | CorpRejected string
  | CorpThrew error
  | CorpDelegated
  | CorpPending

fun tryEnsureCorporated :: "nat \<Rightarrow> (nat \<Rightarrow> bot) \<Rightarrow> nat \<Rightarrow> nat \<Rightarrow> corpResult \<times> nat list"
  and ensureCorporated :: "nat \<Rightarrow> (nat \<Rightarrow> bot) \<Rightarrow> nat \<Rightarrow> nat list \<Rightarrow> corpResult \<times> nat list" where
  "tryEnsureCorporated fuel botAt k curTry =
     (case isGhosted (botAt k) of
        Inl e \<Rightarrow> (CorpThrew e, [])
      | Inr ghosted \<Rightarrow>
          if js_truthy ghosted then
            (if names (botAt k) ''GHOST'' = None then
               (if curTry < 5 then
                  (case fuel of
                     0 \<Rightarrow> (CorpPending, [2000])
                   | Suc fuel' \<Rightarrow>
                       (case ensureCorporated fuel' botAt (Suc k) [curTry + 1] of
                          (r, timers) \<Rightarrow> (r, 2000 # timers)))
                else (CorpRejected ''Could not ensure corporation after 5 tries.'', []))
             else (CorpDelegated, []))
          else (CorpResolved, []))"
| "ensureCorporated fuel botAt k arguments = tryEnsureCorporated fuel botAt k 0"

declare tryEnsureCorporated.simps [simp del]

section \<open>Derived notions and example inputs\<close>


text \<open>
  Two outcomes of a method agree when they throw or return the same and leave the same
  registered reactions.
\<close>

definition sameOutcome :: "'a res \<Rightarrow> 'a res \<Rightarrow> bool" where
  "sameOutcome a b = (fst a = fst b \<and> callbacks (snd a) = callbacks (snd b))"

text \<open>
  A frame parser given by a table from frame texts to messages, and the messages used in
  the examples: the introduction of an avatar (one mod, numeric id 42, a ghost) and the
  deletion of an object.
\<close>

definition tableElko :: "(string \<times> jsval) list \<Rightarrow> string \<Rightarrow> error + jsval" where
  "tableElko table s = (case map_of table s of None \<Rightarrow> Inl ParseError | Some msg \<Rightarrow> Inr msg)"

definition makeMsg :: "string \<Rightarrow> bool \<Rightarrow> jsval" where
  "makeMsg ref you =
     JObj [(''op'', JStr ''make''), (''you'', JBool you),
           (''obj'', JObj [(''ref'', JStr ref), (''name'', JStr ''Randy''),
                           (''mods'', JArr [JObj [(''type'', JStr ''Avatar''), (''noid'', JNum 42),
                                                  (''amAGhost'', JBool True)]])])]"

definition deleteMsg :: "string \<Rightarrow> jsval" where
  "deleteMsg ref = JObj [(''op'', JStr ''delete''), (''to'', JStr ref)]"

definition bot0 :: bot where
  "bot0 = HabiBot_new (JStr ''127.0.0.1'') (JNum 1337) (JStr ''randy'')"

definition abcElko :: "string \<Rightarrow> error + jsval" where
  "abcElko = tableElko [(''{1}'' @ [LF, LF], makeMsg ''a-b-c'' False),
                        (''{2}'' @ [LF, LF], deleteMsg ''a-b-c''),
                        (''{3}'' @ [LF, LF], makeMsg ''USER-b-c'' True),
                        (''{4}'' @ [LF, LF], makeMsg ''__proto__-b-c'' False),
                        (''{5}'' @ [LF, LF], makeMsg ''constructor-b-c'' False),
                        (''{6}'' @ [LF, LF], deleteMsg ''constructor-b-c''),
                        (''{7}'' @ [LF, LF], JObj [(''op'', JStr ''PING'')])]"

text \<open>
  A parser that answers every frame text with the empty message, as a parser does that
  swallows its parse errors.
\<close>

definition lenientElko :: "string \<Rightarrow> error + jsval" where
  "lenientElko s = Inr (JObj [])"

definition twoOps :: "string \<Rightarrow> error + jsval" where
  "twoOps = tableElko [(''{A}'' @ [LF, LF], JObj [(''op'', JStr ''A'')]),
                       (''{B}'' @ [LF, LF], JObj [(''op'', JStr ''B'')])]"

text \<open>
  Mirrors for the substitution examples: the client after the introduction of its own
  avatar \<open>user-randy-100\<close> (flagged \<open>you\<close>, so \<open>ME\<close> is set), once with the single mod of
  \<open>makeMsg\<close> and once with two mods.
\<close>

definition twoModsMsg :: jsval where
  "twoModsMsg =
     JObj [(''op'', JStr ''make''), (''you'', JBool True),
           (''obj'', JObj [(''ref'', JStr ''user-randy-100''), (''name'', JStr ''Randy''),
                           (''mods'', JArr [JObj [(''type'', JStr ''Avatar''), (''noid'', JNum 42)],
                                            JObj [(''type'', JStr ''Extra'')]])])]"

definition randyElko :: "string \<Rightarrow> error + jsval" where
  "randyElko = tableElko [(''{1}'' @ [LF, LF], makeMsg ''user-randy-100'' True),
                          (''{2}'' @ [LF, LF], twoModsMsg)]"

definition randyBot :: bot where
  "randyBot = snd (processData randyElko (''{1}'' @ [LF, LF]) bot0)"

definition twoModsBot :: bot where
  "twoModsBot = snd (processData randyElko (''{2}'' @ [LF, LF]) bot0)"

text \<open>
  An instance of the serializer for the examples: \<open>JSON.stringify\<close> on values whose
  strings need no escaping.
\<close>

fun plainJSON :: "jsval \<Rightarrow> string" where
  "plainJSON JUndefined = ''null''"
| "plainJSON JNull = ''null''"
| "plainJSON (JBool b) = (if b then ''true'' else ''false'')"
| "plainJSON (JNum n) = show_int n"
| "plainJSON (JStr s) = [CHR 0x22] @ s @ [CHR 0x22]"
| "plainJSON (JArr xs) = ''['' @ js_join '','' (map plainJSON xs) @ '']''"
| "plainJSON (JObj fs) =
     ''{'' @ js_join '',''
              (map (\<lambda>p. [CHR 0x22] @ fst p @ [CHR 0x22] @ '':'' @ plainJSON (snd p))
                   (filter (\<lambda>p. snd p \<noteq> JUndefined
                                \<and> (case snd p of JInherited n \<Rightarrow> n = ''__proto__'' | _ \<Rightarrow> True)) fs))
      @ ''}''"
| "plainJSON (JInherited n) = (if n = ''__proto__'' then ''{}'' else ''null'')"

text \<open>
  The example client after \<open>connect()\<close> and the establishment of the connection, and
  after it has then seen the introduction of its own avatar; a store with one command;
  a command with an alias and a path, and what the first send leaves of it.
\<close>

definition connectedBot :: bot where
  "connectedBot = onConnect (snd (connect bot0))"

definition liveBot :: bot where
  "liveBot = snd (processData randyElko (''{1}'' @ [LF, LF]) connectedBot)"

definition speakStore :: store where
  "speakStore = [0 \<mapsto> [(''op'', JStr ''SPEAK''), (''to'', JStr ''ME''), (''esp'', JNum 0),
                         (''text'', JStr ''hi'')]]"

definition speakJSON :: string where
  "speakJSON = plainJSON (JObj [(''op'', JStr ''SPEAK''), (''to'', JStr ''ME''), (''esp'', JNum 0),
                                (''text'', JStr ''hi'')])"

definition helloCmd :: "(string \<times> jsval) list" where
  "helloCmd = [(''op'', JStr ''SPEAK''), (''to'', JStr ''ME''), (''esp'', JNum 0),
               (''text'', JStr ''hello $ME.name'')]"

definition helloResolved :: "(string \<times> jsval) list" where
  "helloResolved = [(''op'', JStr ''SPEAK''), (''to'', JStr ''user-randy-100''), (''esp'', JNum 0),
                    (''text'', JStr ''hello Randy'')]"

text \<open>
  Notions for the queue. At most one unit is active at any time: every unit has completed
  or failed when the next becomes active. The cumulative minimum delay of each queue
  position: the sum of the delays of the entry and of all entries before it, counted
  from the start. A unit wrote no earlier than a given time.
\<close>

fun oneAtATime :: "unitLog list \<Rightarrow> bool" where
  "oneAtATime [] = True"
| "oneAtATime [e] = True"
| "oneAtATime (e # e' # es) =
     ((case activeTo e of None \<Rightarrow> False | Some t \<Rightarrow> activeFrom e \<le> t \<and> t \<le> activeFrom e')
      \<and> oneAtATime (e' # es))"

fun dueTimes :: "nat \<Rightarrow> (nat \<times> nat \<times> nat) list \<Rightarrow> nat list" where
  "dueTimes now [] = []"
| "dueTimes now ((ref, delayMillis, late) # queue) =
     (now + delayMillis) # dueTimes (now + delayMillis) queue"

definition wroteNotBefore :: "unitLog \<Rightarrow> nat \<Rightarrow> bool" where
  "wroteNotBefore e due = (case wrote e of None \<Rightarrow> False | Some (t, data) \<Rightarrow> due \<le> t)"

text \<open>
  What the unit of a command makes of it on a given client: the outcome of the
  substitution and the command object after it, and the frame written for it.
\<close>

definition resolved :: "bot \<Rightarrow> store \<Rightarrow> nat \<Rightarrow> (error + unit) \<times> (string \<times> jsval) list" where
  "resolved st heap ref =
     (case heap ref of
        None \<Rightarrow> (Inl TypeError, [])
      | Some m \<Rightarrow> substituteState st (resolveTo st m))"

definition frameOf :: "(jsval \<Rightarrow> string) \<Rightarrow> bot \<Rightarrow> store \<Rightarrow> nat \<Rightarrow> string" where
  "frameOf stringify st heap ref = stringify (JObj (snd (resolved st heap ref))) @ [LF, LF]"

text \<open>
  A store with four commands, under the references 10 to 13: a plain one, one with a path, one without anything to
  substitute, and one whose path reads a property of \<open>undefined\<close>.
\<close>

definition queueStore :: store where
  "queueStore =
     [10 \<mapsto> [(''op'', JStr ''SPEAK''), (''to'', JStr ''ME''), (''esp'', JNum 0), (''text'', JStr ''hi'')],
      11 \<mapsto> helloCmd,
      12 \<mapsto> [(''op'', JStr ''POSTURE''), (''to'', JStr ''ME''), (''pose'', JNum 141)],
      13 \<mapsto> [(''op'', JStr ''SPEAK''), (''to'', JStr ''ME''), (''text'', JStr ''$ME.x.y'')]]"

section \<open>Properties of the deframer\<close>

lemma of_char_LF: "(of_char c = (10::nat)) = (c = LF)"
proof -
  have "of_char LF = (10::nat)" by (simp add: LF_def)
  then show ?thesis by (metis of_char_eq_iff)
qed

lemma of_char_brace: "(of_char c = (123::nat)) = (c = CHR ''{'')"
proof -
  have "of_char (CHR ''{'') = (123::nat)" by simp
  then show ?thesis by (metis of_char_eq_iff)
qed

lemma wfFrame_shape:
  "wfFrame f = (\<exists>body. f = CHR ''{'' # body @ [LF, LF] \<and> LF \<notin> set body)"
proof
  assume "wfFrame f"
  then obtain r where f: "f = CHR ''{'' # r" and len: "2 \<le> length r"
    and dr: "drop (length r - 2) r = [LF, LF]"
    and tk: "list_all (\<lambda>x. x \<noteq> LF) (take (length r - 2) r)"
    by (auto simp: wfFrame_def split: list.splits)
  have "r = take (length r - 2) r @ [LF, LF]"
    using dr by (metis append_take_drop_id)
  moreover have "LF \<notin> set (take (length r - 2) r)"
    using tk by (auto simp: list_all_iff)
  ultimately show "\<exists>body. f = CHR ''{'' # body @ [LF, LF] \<and> LF \<notin> set body"
    using f by blast
next
  assume "\<exists>body. f = CHR ''{'' # body @ [LF, LF] \<and> LF \<notin> set body"
  then show "wfFrame f"
    by (auto simp: wfFrame_def list_all_iff)
qed

lemma frameLoop_body:
  "LF \<notin> set body \<Longrightarrow>
   frameLoop pkt True False buf w (body @ LF # LF # rest)
     = frameLoop pkt False False [] (pkt (buf @ body @ [LF, LF]) w) rest"
proof (induction body arbitrary: buf)
  case Nil
  show ?case by (simp add: of_char_LF)
next
  case (Cons c body)
  then have "c \<noteq> LF" and "LF \<notin> set body" by auto
  with Cons.IH [of "buf @ [c]"] show ?case by (simp add: of_char_LF)
qed

lemma frameLoop_frame:
  assumes "wfFrame f"
  shows "frameLoop pkt False fe jf w (f @ rest) = frameLoop pkt False False [] (pkt f w) rest"
proof -
  from assms obtain body where f: "f = CHR ''{'' # body @ [LF, LF]" and nolf: "LF \<notin> set body"
    by (auto simp: wfFrame_shape)
  show ?thesis
    using frameLoop_body [OF nolf, of pkt "''{''" w rest]
    by (simp add: f of_char_brace)
qed

lemma frameLoop_frames:
  "list_all wfFrame fs \<Longrightarrow>
   frameLoop pkt False False [] w (concat fs @ rest)
     = frameLoop pkt False False [] (foldl (\<lambda>w f. pkt f w) w fs) rest"
proof (induction fs arbitrary: w)
  case Nil
  show ?case by simp
next
  case (Cons f fs)
  then have "wfFrame f" and "list_all wfFrame fs" by auto
  then show ?case
    using Cons.IH [of "pkt f w"] frameLoop_frame [of f pkt False "[]" w "concat fs @ rest"]
    by simp
qed

lemma frameScan_frames:
  "list_all wfFrame fs \<Longrightarrow> frameScan pkt w (concat fs) = foldl (\<lambda>w f. pkt f w) w fs"
  using frameLoop_frames [of fs pkt w "[]"] by (simp add: frameScan_def)

text \<open>The loop of a chunk of whole frames hands them over one after the other.\<close>

lemma processData_loop_frames:
  "list_all wfFrame fs \<Longrightarrow>
   processData_loop parseElko (concat fs) st
     = foldl (\<lambda>w f. handFrame parseElko f w) ([], (Inr JNull, st)) fs"
  by (simp add: processData_loop_def frameScan_frames)

lemma handFrame_thrown: "handFrame parseElko f (handed, (Inl e, st)) = (handed, (Inl e, st))"
  by (simp add: handFrame_def)

lemma handFrame_step:
  "handFrame parseElko f (handed, (Inr v, st)) = (handed @ [f], processElkoPacket parseElko f st)"
  by (simp add: handFrame_def)

lemma handFrames_thrown:
  "foldl (\<lambda>w f. handFrame parseElko f w) (handed, (Inl e, st)) fs = (handed, (Inl e, st))"
  by (induction fs) (simp_all add: handFrame_thrown)

text \<open>When the loop returns, every frame was handed over.\<close>

lemma handFrames_returned:
  "foldl (\<lambda>w f. handFrame parseElko f w) (handed, (Inr v, st)) fs = (handed', (Inr v', st'))
   \<Longrightarrow> handed' = handed @ fs"
proof (induction fs arbitrary: handed v st)
  case Nil
  then show ?case by simp
next
  case (Cons f fs)
  obtain r st1 where p: "processElkoPacket parseElko f st = (r, st1)"
    by (cases "processElkoPacket parseElko f st")
  show ?case
  proof (cases r)
    case (Inl e)
    with Cons.prems p show ?thesis
      by (simp add: handFrame_step handFrames_thrown)
  next
    case (Inr v1)
    with Cons.prems p have
      "foldl (\<lambda>w f. handFrame parseElko f w) (handed @ [f], (Inr v1, st1)) fs
         = (handed', (Inr v', st'))"
      by (simp add: handFrame_step)
    from Cons.IH [OF this] show ?thesis by simp
  qed
qed

section \<open>What a call of \<open>processData\<close> depends on\<close>

text \<open>
  Whether a step of the mirror throws, and what it returns, depends on the frame and on the
  registered reactions, not on the mirror it starts from.
\<close>

lemma sameOutcome_pure: "callbacks st = callbacks st' \<Longrightarrow> sameOutcome (x, st) (x, st')"
  by (simp add: sameOutcome_def)

lemma sameOutcome_orThrow:
  "callbacks st = callbacks st' \<Longrightarrow> (\<And>v. sameOutcome (k v) (k' v))
   \<Longrightarrow> sameOutcome (orThrow r st k) (orThrow r st' k')"
  by (cases r) (simp_all add: orThrow_def sameOutcome_def)

lemma sameOutcome_andThen:
  "sameOutcome m m' \<Longrightarrow> (\<And>v s s'. callbacks s = callbacks s' \<Longrightarrow> sameOutcome (k v s) (k' v s'))
   \<Longrightarrow> sameOutcome (andThen m k) (andThen m' k')"
  by (cases m; cases m') (auto simp: andThen_def sameOutcome_def split: sum.splits)

lemma same_addNamesOf:
  "callbacks st = callbacks st' \<Longrightarrow> sameOutcome (addNamesOf v st) (addNamesOf v st')"
  by (cases v) (simp_all add: addNamesOf_def sameOutcome_def)

lemma putProp_same: "(putProp k v d = Inl e) = (putProp k v d' = Inl e)"
  by (cases v) (simp_all add: putProp_def)

lemma same_putProp:
  assumes "callbacks st = callbacks st'" and "\<And>d d'. sameOutcome (k d) (k' d')"
  shows "sameOutcome (orThrow (putProp key v d) st k) (orThrow (putProp key v d') st' k')"
proof (cases "putProp key v d")
  case (Inl e)
  then have "putProp key v d' = Inl e" using putProp_same by blast
  with Inl assms(1) show ?thesis by (simp add: orThrow_def sameOutcome_def)
next
  case (Inr d1)
  then obtain d2 where "putProp key v d' = Inr d2"
    using putProp_same [of key v d' _ d] by (cases "putProp key v d'") auto
  with Inr assms(2) show ?thesis by (simp add: orThrow_def)
qed

lemma sameOutcome_if:
  "(c \<Longrightarrow> sameOutcome a a') \<Longrightarrow> (\<not> c \<Longrightarrow> sameOutcome b b')
   \<Longrightarrow> sameOutcome (if c then a else b) (if c then a' else b')"
  by simp

lemmas sameOutcome_intros = sameOutcome_if sameOutcome_orThrow sameOutcome_andThen same_putProp

lemma same_indexNoid:
  "callbacks st = callbacks st' \<Longrightarrow> sameOutcome (indexNoid obj st) (indexNoid obj st')"
  unfolding indexNoid_def
  by (intro sameOutcome_intros) (simp_all add: sameOutcome_def)

lemma same_indexAvatar:
  "callbacks st = callbacks st' \<Longrightarrow> sameOutcome (indexAvatar obj st) (indexAvatar obj st')"
  unfolding indexAvatar_def
  by (intro sameOutcome_intros) (simp_all add: sameOutcome_def)

lemma same_markGhost:
  "callbacks st = callbacks st' \<Longrightarrow> sameOutcome (markGhost obj ref st) (markGhost obj ref st')"
  unfolding markGhost_def
  by (intro sameOutcome_intros) (simp_all add: sameOutcome_def)

lemma same_enterAsYou:
  "callbacks st = callbacks st' \<Longrightarrow> sameOutcome (enterAsYou msg ref st) (enterAsYou msg ref st')"
  unfolding enterAsYou_def
  by (intro sameOutcome_intros)
     (simp_all add: sameOutcome_def Let_def invokeAll_def split: option.splits)

lemma same_introduce:
  assumes "callbacks st = callbacks st'"
  shows "sameOutcome (introduce msg st) (introduce msg st')"
  unfolding introduce_def Let_def
  by (intro sameOutcome_intros same_addNamesOf
        same_indexNoid same_enterAsYou same_markGhost same_indexAvatar assms)
     simp_all

lemma same_scanForRefs:
  assumes "callbacks st = callbacks st'"
  shows "sameOutcome (scanForRefs parseElko s st) (scanForRefs parseElko s st')"
  unfolding scanForRefs_def
  by (intro sameOutcome_intros same_addNamesOf same_introduce sameOutcome_pure assms)
     (simp_all add: sameOutcome_def)

text \<open>No step of \<open>processData\<close> registers or removes a reaction.\<close>

lemma callbacks_orThrow:
  "callbacks st = c \<Longrightarrow> (\<And>v. callbacks (snd (k v)) = c) \<Longrightarrow> callbacks (snd (orThrow r st k)) = c"
  by (cases r) (simp_all add: orThrow_def)

lemma callbacks_andThen:
  "callbacks (snd m) = c \<Longrightarrow> (\<And>v s. callbacks s = c \<Longrightarrow> callbacks (snd (k v s)) = c)
   \<Longrightarrow> callbacks (snd (andThen m k)) = c"
  by (cases m) (auto simp: andThen_def split: sum.splits)

lemma callbacks_if:
  "(b \<Longrightarrow> callbacks (snd x) = c) \<Longrightarrow> (\<not> b \<Longrightarrow> callbacks (snd y) = c)
   \<Longrightarrow> callbacks (snd (if b then x else y)) = c"
  by simp

lemmas callbacks_intros = callbacks_if callbacks_orThrow callbacks_andThen

lemma callbacks_addNamesOf: "callbacks st = c \<Longrightarrow> callbacks (snd (addNamesOf v st)) = c"
  by (cases v) (simp_all add: addNamesOf_def)

lemma callbacks_clearNamesOf: "callbacks st = c \<Longrightarrow> callbacks (snd (clearNamesOf v st)) = c"
  by (cases v) (simp_all add: clearNamesOf_def)

lemma callbacks_indexNoid: "callbacks st = c \<Longrightarrow> callbacks (snd (indexNoid obj st)) = c"
  unfolding indexNoid_def by (intro callbacks_intros) simp_all

lemma callbacks_indexAvatar: "callbacks st = c \<Longrightarrow> callbacks (snd (indexAvatar obj st)) = c"
  unfolding indexAvatar_def by (intro callbacks_intros) simp_all

lemma callbacks_markGhost: "callbacks st = c \<Longrightarrow> callbacks (snd (markGhost obj ref st)) = c"
  unfolding markGhost_def by (intro callbacks_intros) simp_all

lemma callbacks_enterAsYou: "callbacks st = c \<Longrightarrow> callbacks (snd (enterAsYou msg ref st)) = c"
  unfolding enterAsYou_def
  by (intro callbacks_intros) (simp_all add: Let_def invokeAll_def split: option.splits)

lemma callbacks_introduce: "callbacks st = c \<Longrightarrow> callbacks (snd (introduce msg st)) = c"
  unfolding introduce_def Let_def
  by (intro callbacks_intros callbacks_addNamesOf callbacks_indexNoid callbacks_enterAsYou
        callbacks_markGhost callbacks_indexAvatar) simp_all

lemma callbacks_scanForRefs:
  "callbacks st = c \<Longrightarrow> callbacks (snd (scanForRefs parseElko s st)) = c"
  unfolding scanForRefs_def
  by (intro callbacks_intros callbacks_addNamesOf callbacks_introduce) simp_all

lemma callbacks_forgetDeleted: "callbacks st = c \<Longrightarrow> callbacks (snd (forgetDeleted msg st)) = c"
  unfolding forgetDeleted_def Let_def
  by (intro callbacks_intros callbacks_clearNamesOf) (simp_all split: option.splits)

lemma callbacks_dispatch: "callbacks st = c \<Longrightarrow> callbacks (snd (dispatch msg st)) = c"
  unfolding dispatch_def Let_def
  by (intro callbacks_intros callbacks_forgetDeleted)
     (simp_all add: invokeAll_def split: option.splits)

text \<open>
  Whether the loop throws on a list of frames depends on the frames and on the registered
  reactions only, not on the mirror it starts from.
\<close>

lemma handFrames_same:
  assumes "callbacks st = callbacks st'"
  shows "\<exists>h1 h2 r1 r2.
           foldl (\<lambda>w f. handFrame parseElko f w) (handed, (Inr v, st)) fs = (h1, r1)
           \<and> foldl (\<lambda>w f. handFrame parseElko f w) (handed', (Inr v', st')) fs = (h2, r2)
           \<and> isl (fst r1) = isl (fst r2) \<and> callbacks (snd r1) = callbacks (snd r2)"
  using assms
proof (induction fs arbitrary: handed handed' v v' st st')
  case Nil
  then show ?case by simp
next
  case (Cons f fs)
  have so: "sameOutcome (processElkoPacket parseElko f st) (processElkoPacket parseElko f st')"
    unfolding processElkoPacket_def using Cons.prems by (rule same_scanForRefs)
  obtain r st1 where p: "processElkoPacket parseElko f st = (r, st1)"
    by (cases "processElkoPacket parseElko f st")
  obtain r' st1' where p': "processElkoPacket parseElko f st' = (r', st1')"
    by (cases "processElkoPacket parseElko f st'")
  from so p p' have eq: "r' = r" and cb: "callbacks st1 = callbacks st1'"
    by (simp_all add: sameOutcome_def)
  show ?case
  proof (cases r)
    case (Inl e)
    with p p' eq cb show ?thesis
      by (simp add: handFrame_step handFrames_thrown)
  next
    case (Inr v1)
    with p p' eq Cons.IH [OF cb, of "handed @ [f]" v1 "handed' @ [f]" v1] show ?thesis
      by (simp add: handFrame_step)
  qed
qed

lemma handFrames_callbacks:
  "foldl (\<lambda>w f. handFrame parseElko f w) (handed, (r, st)) fs = (handed', (r', st'))
   \<Longrightarrow> callbacks st' = callbacks st"
proof (induction fs arbitrary: handed r st)
  case Nil
  then show ?case by simp
next
  case (Cons f fs)
  show ?case
  proof (cases r)
    case (Inl e)
    with Cons.prems show ?thesis by (simp add: handFrame_thrown handFrames_thrown)
  next
    case (Inr v)
    obtain r1 st1 where p: "processElkoPacket parseElko f st = (r1, st1)"
      by (cases "processElkoPacket parseElko f st")
    then have "callbacks st1 = callbacks st"
      using callbacks_scanForRefs [of st "callbacks st" parseElko f]
      by (simp add: processElkoPacket_def)
    moreover from Cons.prems Inr p have
      "foldl (\<lambda>w f. handFrame parseElko f w) (handed @ [f], (r1, st1)) fs = (handed', (r', st'))"
      by (simp add: handFrame_step)
    ultimately show ?thesis using Cons.IH by metis
  qed
qed

text \<open>
  A feed of whole-frame chunks in which every call returns has handed over every frame, and
  the loop of a single call on the same frames, started on a client with the same
  reactions, returns as well and hands over the same frames.
\<close>

lemma feedChunks_frames:
  assumes "\<forall>fs \<in> set fss. list_all wfFrame fs"
    and "feedChunks parseElko (map concat fss) st = (handed, (Inr (), st'))"
    and "callbacks s = callbacks st"
  shows "handed = concat fss
         \<and> (\<exists>v' s'. foldl (\<lambda>w f. handFrame parseElko f w) (h, (Inr v, s)) (concat fss)
                       = (h @ concat fss, (Inr v', s')))"
  using assms
proof (induction fss arbitrary: st handed h v s)
  case Nil
  then show ?case by simp
next
  case (Cons fs fss)
  from Cons.prems(1) have wf: "list_all wfFrame fs" and wfs: "\<forall>fs \<in> set fss. list_all wfFrame fs"
    by simp_all
  obtain h0 r0 stm where loop: "processData_loop parseElko (concat fs) st = (h0, (r0, stm))"
    by (metis prod.collapse)
  from Cons.prems(2) obtain st1 handed2 where
    call: "processData parseElko (concat fs) st = (Inr (), st1)"
    and rest: "feedChunks parseElko (map concat fss) st1 = (handed2, (Inr (), st'))"
    and handed: "handed = emittedFrames parseElko (concat fs) st @ handed2"
    by (auto split: prod.splits sum.splits)
  from call loop obtain o1 where r0: "r0 = Inr o1" and disp: "dispatch o1 stm = (Inr (), st1)"
    by (cases r0) (auto simp: processData_def andThen_def)
  have fold0: "foldl (\<lambda>w f. handFrame parseElko f w) ([], (Inr JNull, st)) fs = (h0, (Inr o1, stm))"
    using loop r0 processData_loop_frames [OF wf, of parseElko st] by simp
  from handFrames_returned [OF fold0] have h0: "h0 = fs" by simp
  have em: "emittedFrames parseElko (concat fs) st = fs"
    using loop h0 by (simp add: emittedFrames_def)
  have cbm: "callbacks stm = callbacks st"
    using handFrames_callbacks [OF fold0] .
  have cb1: "callbacks st1 = callbacks st"
    using callbacks_dispatch [of stm "callbacks st" o1] cbm disp by simp
  from handFrames_same [OF Cons.prems(3), of parseElko h v fs "[]" JNull] fold0
  obtain h1 r1 where f1: "foldl (\<lambda>w f. handFrame parseElko f w) (h, (Inr v, s)) fs = (h1, r1)"
    and nothrow: "\<not> isl (fst r1)" and cbs: "callbacks (snd r1) = callbacks stm"
    by auto
  from nothrow obtain v1 s1 where r1: "r1 = (Inr v1, s1)"
    by (cases r1; cases "fst r1") auto
  from handFrames_returned [of parseElko h v s fs h1 v1 s1] f1 r1 have h1: "h1 = h @ fs" by simp
  have cbs1: "callbacks s1 = callbacks st1"
    using cbs r1 cbm cb1 by simp
  from Cons.IH [OF wfs rest cbs1, of "h @ fs" v1] obtain v' s' where
    h2: "handed2 = concat fss"
    and f2: "foldl (\<lambda>w f. handFrame parseElko f w) (h @ fs, (Inr v1, s1)) (concat fss)
              = (h @ fs @ concat fss, (Inr v', s'))"
    by auto
  have "foldl (\<lambda>w f. handFrame parseElko f w) (h, (Inr v, s)) (concat (fs # fss))
          = (h @ concat (fs # fss), (Inr v', s'))"
    using f1 r1 h1 f2 by simp
  with handed em h2 show ?case by auto
qed

section \<open>Evaluation of property access and of the examples\<close>

lemma show_nat_0: "show_nat 0 = ''0''"
  by (simp add: show_nat.simps digit_def)

lemma js_index_0: "js_index (x # xs) ''0'' = Some x"
  by (simp add: js_index_def upt_conv_Cons show_nat_0 del: upt_Suc)

lemmas eval_defs = processData_def processData_loop_def handFrame_def emittedFrames_def
  processElkoPacket_def scanForRefs_def dispatch_def
  forgetDeleted_def introduce_def indexNoid_def enterAsYou_def markGhost_def indexAvatar_def
  firstModType_def addNamesOf_def clearNamesOf_def addNames_def clearNames_def segmentOr_def
  setName_def getName_def putProp_def dropProp_def objectPrototype_def objectPrototypeKeys_def
  frameScan_def orThrow_def andThen_def invokeAll_def on_def HabiBot_new_def
  of_char_LF of_char_brace LF_def Let_def js_index_0 show_int_def show_nat.simps digit_def

lemmas example_defs = abcElko_def twoOps_def lenientElko_def tableElko_def
  makeMsg_def deleteMsg_def bot0_def

section \<open>Chunked delivery\<close>

text \<open>
  C1 says that a stream of \<open>{...}\n\n\<close> frames emits the same frames however it is cut into
  chunks. The scanner starts afresh at every call and hands over whatever it holds at the
  end of a chunk. Cut one character per chunk, the frame \<open>{1}\n\n\<close> emits the one piece
  \<open>{\<close>: with a parser that throws on it the first call throws, and with a parser that
  accepts everything the five calls return and the rest of the frame is dropped. And
  chunks of whole frames do not suffice either: the deletion of an unknown object
  followed by another frame throws in the dispatch when it is a chunk of its own, after
  which nothing more of the stream is read, while in one chunk with the frame after it
  both frames are handed over.
\<close>

theorem C1_chunking_counterexample:
  "list_all wfFrame [''{1}'' @ [LF, LF]]
   \<and> emittedFrames abcElko (''{1}'' @ [LF, LF]) bot0 = [''{1}'' @ [LF, LF]]
   \<and> feedChunks abcElko [''{'', ''1'', ''}'', [LF], [LF]] bot0 = ([''{''], (Inl ParseError, bot0))
   \<and> emittedFrames lenientElko (''{1}'' @ [LF, LF]) bot0 = [''{1}'' @ [LF, LF]]
   \<and> feedChunks lenientElko [''{'', ''1'', ''}'', [LF], [LF]] bot0 = ([''{''], (Inr (), bot0))
   \<and> list_all wfFrame [''{2}'' @ [LF, LF], ''{1}'' @ [LF, LF]]
   \<and> emittedFrames abcElko (''{2}'' @ [LF, LF] @ ''{1}'' @ [LF, LF]) bot0
       = [''{2}'' @ [LF, LF], ''{1}'' @ [LF, LF]]
   \<and> fst (feedChunks abcElko [''{2}'' @ [LF, LF], ''{1}'' @ [LF, LF]] bot0) = [''{2}'' @ [LF, LF]]
   \<and> fst (snd (feedChunks abcElko [''{2}'' @ [LF, LF], ''{1}'' @ [LF, LF]] bot0)) = Inl TypeError"
  by (simp add: wfFrame_def eval_defs example_defs)

text \<open>
  C1, amended: when every chunk is a concatenation of whole well-formed frames (\<open>fss\<close>
  lists the frames of each chunk) and every call of \<open>processData\<close> of the chunked delivery
  returns, the frames emitted chunk by chunk are all the frames of the stream, in order,
  and they are the frames that one call on the whole stream emits, whose scanning loop
  returns as well.
\<close>

theorem C1_whole_frame_chunks:
  assumes "\<forall>fs \<in> set fss. list_all wfFrame fs"
    and "feedChunks parseElko (map concat fss) st = (handed, (Inr (), st'))"
  shows "handed = concat fss \<and> emittedFrames parseElko (concat (concat fss)) st = concat fss
         \<and> (\<exists>v s. snd (processData_loop parseElko (concat (concat fss)) st) = (Inr v, s))"
proof -
  have all: "list_all wfFrame (concat fss)"
    using assms(1) by (auto simp: list_all_iff)
  from feedChunks_frames [OF assms, of st "[]" JNull] obtain v' s' where
    h: "handed = concat fss"
    and f: "foldl (\<lambda>w f. handFrame parseElko f w) ([], (Inr JNull, st)) (concat fss)
             = (concat fss, (Inr v', s'))"
    by auto
  from f have l: "processData_loop parseElko (concat (concat fss)) st = (concat fss, (Inr v', s'))"
    by (simp add: processData_loop_frames [OF all])
  then have "emittedFrames parseElko (concat (concat fss)) st = concat fss"
    by (simp add: emittedFrames_def)
  with h l show ?thesis by simp
qed

theorem C1_whole_frame_chunks_witness:
  "list_all wfFrame [''{1}'' @ [LF, LF]]
   \<and> list_all wfFrame [''{2}'' @ [LF, LF], ''{7}'' @ [LF, LF]]
   \<and> (\<exists>st'. feedChunks abcElko
               (map concat [[''{1}'' @ [LF, LF]], [''{2}'' @ [LF, LF], ''{7}'' @ [LF, LF]]]) bot0
             = (concat [[''{1}'' @ [LF, LF]], [''{2}'' @ [LF, LF], ''{7}'' @ [LF, LF]]], (Inr (), st')))
   \<and> emittedFrames abcElko
        (concat (concat [[''{1}'' @ [LF, LF]], [''{2}'' @ [LF, LF], ''{7}'' @ [LF, LF]]])) bot0
       = concat [[''{1}'' @ [LF, LF]], [''{2}'' @ [LF, LF], ''{7}'' @ [LF, LF]]]
   \<and> (\<exists>v s. snd (processData_loop abcElko
                      (concat (concat [[''{1}'' @ [LF, LF]], [''{2}'' @ [LF, LF], ''{7}'' @ [LF, LF]]]))
                      bot0) = (Inr v, s))"
proof -
  let ?fss = "[[''{1}'' @ [LF, LF]], [''{2}'' @ [LF, LF], ''{7}'' @ [LF, LF]]]"
  have h1: "list_all wfFrame [''{1}'' @ [LF, LF]]"
    by (simp add: wfFrame_def LF_def)
  have h2: "list_all wfFrame [''{2}'' @ [LF, LF], ''{7}'' @ [LF, LF]]"
    by (simp add: wfFrame_def LF_def)
  have h: "\<forall>fs \<in> set ?fss. list_all wfFrame fs"
    using h1 h2 by simp
  have "fst (snd (feedChunks abcElko (map concat ?fss) bot0)) = Inr ()"
    by (simp add: eval_defs example_defs)
  then obtain handed st' where
    feed: "feedChunks abcElko (map concat ?fss) bot0 = (handed, (Inr (), st'))"
    by (metis prod.collapse)
  note t = C1_whole_frame_chunks [OF h feed]
  from t feed have a: "\<exists>st'. feedChunks abcElko (map concat ?fss) bot0 = (concat ?fss, (Inr (), st'))"
    by simp
  from t have b: "emittedFrames abcElko (concat (concat ?fss)) bot0 = concat ?fss"
    and c: "\<exists>v s. snd (processData_loop abcElko (concat (concat ?fss)) bot0) = (Inr v, s)"
    by simp_all
  from h1 h2 a b c show ?thesis
    by (intro conjI)
qed

section \<open>Dispatch of reactions\<close>

text \<open>
  C2 says that the reactions under the operation name and under \<open>msg\<close> run once for every
  completed frame that carries an operation, also when several frames arrive in one
  chunk. The dispatch is written after the scanning loop, on the last \<open>o\<close> only. Here a
  chunk holds the frames of operations \<open>A\<close> and \<open>B\<close>, with reaction 1 registered under
  \<open>A\<close>, reaction 2 under \<open>B\<close> and reaction 0 under \<open>msg\<close> (the three registrations
  return): the call returns normally, and all it invokes is reaction 2 and reaction 0,
  both with the message of \<open>B\<close>. Nothing is invoked for the frame of \<open>A\<close>.
\<close>

theorem C2_only_last_frame_dispatched:
  "fst (on ''msg'' 0 bot0) = Inr ()
   \<and> fst (on ''B'' 2 (snd (on ''msg'' 0 bot0))) = Inr ()
   \<and> fst (on ''A'' 1 (snd (on ''B'' 2 (snd (on ''msg'' 0 bot0))))) = Inr ()
   \<and> processData twoOps (''{A}'' @ [LF, LF] @ ''{B}'' @ [LF, LF])
        (snd (on ''A'' 1 (snd (on ''B'' 2 (snd (on ''msg'' 0 bot0))))))
      = (Inr (), (snd (on ''A'' 1 (snd (on ''B'' 2 (snd (on ''msg'' 0 bot0))))))
           \<lparr>effects := [Invoke 2 (Some (JObj [(''op'', JStr ''B'')])),
                        Invoke 0 (Some (JObj [(''op'', JStr ''B'')]))]\<rparr>)"
  by (simp add: eval_defs example_defs)

section \<open>The alias table\<close>



































section \<open>State substitution\<close>

lemmas subst_defs = substituteState_def substituteField_def resolveChunk_def resolveFirst_def
  nextValue_def substituteName_def getName_def objectPrototype_def objectPrototypeKeys_def
  js_arrayJoin_def Let_def

text \<open>The loop assigns only fields it visits.\<close>

lemma substituteLoop_other:
  "substituteLoop st ks m vars = (r, m') \<Longrightarrow> k \<notin> set ks \<Longrightarrow> map_of m' k = map_of m k"
proof (induction ks arbitrary: m vars)
  case Nil
  then show ?case by simp
next
  case (Cons name rest)
  then have "k \<noteq> name" and "k \<notin> set rest" by auto
  with Cons.prems(1) Cons.IH show ?case
    by (auto simp: update_conv' split: option.splits jsval.splits if_splits sum.splits)
qed

text \<open>
  A field whose substitution succeeds with the same value whatever \<open>obj\<close> and \<open>mod\<close> hold
  before it ends with that value, when the loop visits it once and the call returns.
\<close>

lemma substituteLoop_field:
  assumes "substituteLoop st ks m vars = (Inr (), m')"
    and "map_of m k = Some (JStr prop)" and "CHR ''$'' \<in> set prop"
    and "k \<in> set ks" and "distinct ks"
    and "\<And>vars. \<exists>vars'. substituteField st prop vars = Inr (v, vars')"
  shows "map_of m' k = Some v"
  using assms(1,2,4,5)
proof (induction ks arbitrary: m vars)
  case Nil
  then show ?case by simp
next
  case (Cons name rest)
  show ?case
  proof (cases "name = k")
    case True
    from assms(6) obtain vars1 where f: "substituteField st prop vars = Inr (v, vars1)" by blast
    with True Cons.prems(1,2) assms(3)
    have run: "substituteLoop st rest (AList.update k v m) vars1 = (Inr (), m')" by simp
    from True Cons.prems(4) have "k \<notin> set rest" by simp
    from substituteLoop_other [OF run this] show ?thesis by (simp add: update_conv')
  next
    case False
    with Cons.prems have k: "k \<in> set rest" and d: "distinct rest" by auto
    from Cons.prems(1) obtain m1 vars1 where
      run: "substituteLoop st rest m1 vars1 = (Inr (), m')" and m1: "m1 = m \<or> (\<exists>w. m1 = AList.update name w m)"
      by (auto split: option.splits jsval.splits if_splits sum.splits)
    from m1 False Cons.prems(2) have "map_of m1 k = Some (JStr prop)"
      by (auto simp: update_conv')
    from Cons.IH [OF run this k d] show ?thesis .
  qed
qed

lemma field_noid:
  assumes "names st ''ME'' = Some ref" "ref \<noteq> []" "history st ref = Some record"
    "js_get record ''obj'' = Inr (JObj obj)" "map_of obj ''mods'' = Some (JArr [JObj mod0])"
    "map_of mod0 ''noid'' = Some (JNum 42)"
  shows "substituteField st ''$ME.mods.noid'' vars = Inr (JNum 42, JObj obj, JObj mod0)"
  using assms by (cases vars) (simp add: subst_defs js_index_0)

lemma field_name:
  assumes "names st ''ME'' = Some ref" "ref \<noteq> []" "history st ref = Some record"
    "js_get record ''obj'' = Inr (JObj obj)" "map_of obj ''mods'' = Some (JArr [JObj mod0])"
    "map_of obj ''name'' = Some (JStr ''Randy'')" "map_of mod0 ''name'' = None"
  shows "substituteField st ''hello $ME.name'' vars = Inr (JStr ''hello Randy'', JObj obj, JObj mod0)"
  using assms by (cases vars) (simp add: subst_defs js_index_0)

lemma field_name_closed:
  assumes "names st ''ME'' = Some ref" "ref \<noteq> []" "history st ref = Some record"
    "js_get record ''obj'' = Inr (JObj obj)" "map_of obj ''mods'' = Some (JArr [JObj mod0])"
    "map_of obj ''name'' = Some (JStr ''Randy'')" "map_of mod0 ''name'' = None"
    "names st ''!'' = None" "history st ''!'' = None"
  shows "substituteField st ''hello $ME.name$!'' vars = Inr (JStr ''hello Randy!'', JObj obj, JObj mod0)"
  using assms by (cases vars) (simp add: subst_defs js_index_0)

lemmas randy_defs = randyBot_def twoModsBot_def randyElko_def twoModsMsg_def

text \<open>A property key with a character that is no digit is not an index.\<close>

lemma show_nat_digits: "set (show_nat n) \<subseteq> set ''0123456789''"
proof (induction n rule: show_nat.induct)
  case (1 n)
  have d: "digit (n mod 10) \<in> set ''0123456789''"
    unfolding digit_def by (rule nth_mem) simp
  show ?case
  proof (cases "n < 10")
    case True
    then have "show_nat n = [digit (n mod 10)]" by (simp add: show_nat.simps)
    with d show ?thesis by simp
  next
    case False
    then have "show_nat n = show_nat (n div 10) @ [digit (n mod 10)]"
      by (simp add: show_nat.simps)
    with d "1.IH" False show ?thesis by simp
  qed
qed

lemma js_index_nondigit:
  assumes "c \<in> set k" and "c \<notin> set ''0123456789''"
  shows "js_index xs k = None"
proof -
  have "k \<notin> set (map show_nat [0..<length xs])"
    using assms show_nat_digits by fastforce
  then show ?thesis
    unfolding js_index_def by (simp add: map_of_zip_is_None)
qed

lemma js_index_noid: "js_index xs ''noid'' = None"
  by (rule js_index_nondigit [of "CHR ''n''"]) simp_all

text \<open>
  C4, as stated: with \<open>ME\<close> resolving to a record whose first mod has \<open>noid\<close> 42 and whose
  name is \<open>Randy\<close>, a field \<open>$ME.mods.noid\<close> becomes the number 42 and a field
  \<open>hello $ME.name!\<close> becomes \<open>hello Randy!\<close>. On the mirror \<open>randyBot\<close> the first holds but
  the second field becomes \<open>hello \<close>: a path runs to the next dollar sign or to the end
  of the string, so its last key is \<open>name!\<close>, which nothing has, and the \<open>undefined\<close>
  joins as nothing. On \<open>twoModsBot\<close>, whose first mod has \<open>noid\<close> 42 as well, \<open>mod\<close> is not
  set (the object has two mods) and the field \<open>$ME.mods.noid\<close> becomes \<open>undefined\<close>.
\<close>

theorem C4_trailing_text_counterexample:
  "names randyBot ''ME'' = Some ''user-randy-100''
   \<and> history randyBot ''user-randy-100'' = Some (makeMsg ''user-randy-100'' True)
   \<and> substituteState randyBot [(''id'', JStr ''$ME.mods.noid''), (''text'', JStr ''hello $ME.name!'')]
       = (Inr (), [(''id'', JNum 42), (''text'', JStr ''hello '')])
   \<and> JStr ''hello '' \<noteq> JStr ''hello Randy!''
   \<and> names twoModsBot ''ME'' = Some ''user-randy-100''
   \<and> history twoModsBot ''user-randy-100'' = Some twoModsMsg
   \<and> substituteState twoModsBot [(''id'', JStr ''$ME.mods.noid'')] = (Inr (), [(''id'', JUndefined)])"
  by (simp add: randy_defs eval_defs example_defs subst_defs js_index_noid)

text \<open>
  C4, amended: let \<open>ME\<close> resolve to a stored record whose object has exactly one mod,
  with \<open>noid\<close> 42 in that mod, the name \<open>Randy\<close> in the object and no \<open>name\<close> in the mod. Then
  every call of \<open>substituteState\<close> that returns, on a command with distinct keys, has set
  a field valued exactly \<open>$ME.mods.noid\<close> to the number 42, a field valued
  \<open>hello $ME.name\<close> to the string \<open>hello Randy\<close>, and, when \<open>!\<close> is neither an alias nor a
  ref of the history, a field valued \<open>hello $ME.name$!\<close> to the string \<open>hello Randy!\<close>.
\<close>

theorem C4_substitution:
  assumes me: "names st ''ME'' = Some ref" "ref \<noteq> []" "history st ref = Some record"
      "js_get record ''obj'' = Inr (JObj obj)" "map_of obj ''mods'' = Some (JArr [JObj mod0])"
    and noid: "map_of mod0 ''noid'' = Some (JNum 42)"
    and name: "map_of obj ''name'' = Some (JStr ''Randy'')" "map_of mod0 ''name'' = None"
    and m: "distinct (map fst m)" "substituteState st m = (Inr (), m')"
  shows "(map_of m k = Some (JStr ''$ME.mods.noid'') \<longrightarrow> map_of m' k = Some (JNum 42))
       \<and> (map_of m k = Some (JStr ''hello $ME.name'') \<longrightarrow> map_of m' k = Some (JStr ''hello Randy''))
       \<and> (names st ''!'' = None \<and> history st ''!'' = None
            \<and> map_of m k = Some (JStr ''hello $ME.name$!'')
          \<longrightarrow> map_of m' k = Some (JStr ''hello Randy!''))"
proof -
  have run: "substituteLoop st (map fst m) m (JUndefined, JUndefined) = (Inr (), m')"
    using m(2) by (simp add: substituteState_def)
  have key: "map_of m k = Some x \<Longrightarrow> k \<in> set (map fst m)" for x
    by (force dest: map_of_SomeD)
  have a: "map_of m' k = Some (JNum 42)" if h: "map_of m k = Some (JStr ''$ME.mods.noid'')"
    using substituteLoop_field [OF run h _ key [OF h] m(1)] field_noid [OF me noid] by simp
  have b: "map_of m' k = Some (JStr ''hello Randy'')" if h: "map_of m k = Some (JStr ''hello $ME.name'')"
    using substituteLoop_field [OF run h _ key [OF h] m(1)] field_name [OF me name] by simp
  have c: "map_of m' k = Some (JStr ''hello Randy!'')"
    if h: "map_of m k = Some (JStr ''hello $ME.name$!'')"
      and e: "names st ''!'' = None" "history st ''!'' = None"
    using substituteLoop_field [OF run h _ key [OF h] m(1)] field_name_closed [OF me name e] by simp
  from a b c show ?thesis by blast
qed

theorem C4_substitution_witness:
  "names randyBot ''ME'' = Some ''user-randy-100''
   \<and> history randyBot ''user-randy-100'' = Some (makeMsg ''user-randy-100'' True)
   \<and> fst (substituteState randyBot
        [(''op'', JStr ''SPEAK''), (''id'', JStr ''$ME.mods.noid''),
         (''text'', JStr ''hello $ME.name''), (''text2'', JStr ''hello $ME.name$!'')]) = Inr ()
   \<and> map_of (snd (substituteState randyBot
        [(''op'', JStr ''SPEAK''), (''id'', JStr ''$ME.mods.noid''),
         (''text'', JStr ''hello $ME.name''), (''text2'', JStr ''hello $ME.name$!'')])) ''id''
       = Some (JNum 42)
   \<and> map_of (snd (substituteState randyBot
        [(''op'', JStr ''SPEAK''), (''id'', JStr ''$ME.mods.noid''),
         (''text'', JStr ''hello $ME.name''), (''text2'', JStr ''hello $ME.name$!'')])) ''text''
       = Some (JStr ''hello Randy'')
   \<and> map_of (snd (substituteState randyBot
        [(''op'', JStr ''SPEAK''), (''id'', JStr ''$ME.mods.noid''),
         (''text'', JStr ''hello $ME.name''), (''text2'', JStr ''hello $ME.name$!'')])) ''text2''
       = Some (JStr ''hello Randy!'')"
proof -
  let ?m = "[(''op'', JStr ''SPEAK''), (''id'', JStr ''$ME.mods.noid''),
             (''text'', JStr ''hello $ME.name''), (''text2'', JStr ''hello $ME.name$!'')]"
  let ?obj = "[(''ref'', JStr ''user-randy-100''), (''name'', JStr ''Randy''),
               (''mods'', JArr [JObj [(''type'', JStr ''Avatar''), (''noid'', JNum 42),
                                      (''amAGhost'', JBool True)]])]"
  let ?mod0 = "[(''type'', JStr ''Avatar''), (''noid'', JNum 42), (''amAGhost'', JBool True)]"
  have me: "names randyBot ''ME'' = Some ''user-randy-100''" "''user-randy-100'' \<noteq> []"
      "history randyBot ''user-randy-100'' = Some (makeMsg ''user-randy-100'' True)"
      "js_get (makeMsg ''user-randy-100'' True) ''obj'' = Inr (JObj ?obj)"
      "map_of ?obj ''mods'' = Some (JArr [JObj ?mod0])"
    by (simp_all add: randy_defs eval_defs example_defs)
  have fields: "map_of ?mod0 ''noid'' = Some (JNum 42)"
      "map_of ?obj ''name'' = Some (JStr ''Randy'')" "map_of ?mod0 ''name'' = None"
    by simp_all
  have bang: "names randyBot ''!'' = None" "history randyBot ''!'' = None"
    by (simp_all add: randy_defs eval_defs example_defs)
  have d: "distinct (map fst ?m)" by simp
  have ok: "fst (substituteState randyBot ?m) = Inr ()"
    by (simp add: randy_defs eval_defs example_defs subst_defs)
  then have run: "substituteState randyBot ?m = (Inr (), snd (substituteState randyBot ?m))"
    by (metis prod.collapse)
  have f: "map_of ?m ''id'' = Some (JStr ''$ME.mods.noid'')"
      "map_of ?m ''text'' = Some (JStr ''hello $ME.name'')"
      "map_of ?m ''text2'' = Some (JStr ''hello $ME.name$!'')"
    by simp_all
  show ?thesis
    using C4_substitution [OF me fields d run, of "''id''"]
      C4_substitution [OF me fields d run, of "''text''"]
      C4_substitution [OF me fields d run, of "''text2''"] me(1,3) ok f bang
    by blast
qed


section \<open>Accessors and connection\<close>

lemma js_index_this: "js_index xs ''this'' = None"
  by (rule js_index_nondigit [of "CHR ''t''"]) simp_all

text \<open>
  C8 says that \<open>connect()\<close> with host or port unset reports a configuration error and
  returns normally, without a throw. The report is never made: the argument list of
  \<open>log.error\<close> reads \<open>this.host. this.port\<close>, which throws a TypeError when the host is
  \<open>undefined\<close>, and also when the host is a string and the port is \<open>undefined\<close> (a string
  has no property \<open>this\<close>). The client is left as it was: nothing is logged and no
  connection is attempted, as C8 says, but the call ends in the throw.
\<close>

theorem C8_connect_unset_throws:
  assumes "host st = JUndefined \<or> (host st = JStr h \<and> port st = JUndefined)"
  shows "connect st = (Inl TypeError, st)"
  using assms by (auto simp: connect_def orThrow_def js_index_this objectPrototypeKeys_def)

theorem C8_connect_unset_throws_witness:
  "host (HabiBot_new JUndefined (JNum 1337) (JStr ''randy'')) = JUndefined
   \<and> connect (HabiBot_new JUndefined (JNum 1337) (JStr ''randy''))
       = (Inl TypeError, HabiBot_new JUndefined (JNum 1337) (JStr ''randy''))
   \<and> host (HabiBot_new (JStr ''127.0.0.1'') JUndefined (JStr ''randy'')) = JStr ''127.0.0.1''
   \<and> port (HabiBot_new (JStr ''127.0.0.1'') JUndefined (JStr ''randy'')) = JUndefined
   \<and> connect (HabiBot_new (JStr ''127.0.0.1'') JUndefined (JStr ''randy''))
       = (Inl TypeError, HabiBot_new (JStr ''127.0.0.1'') JUndefined (JStr ''randy''))"
proof -
  have a: "host (HabiBot_new JUndefined (JNum 1337) (JStr ''randy'')) = JUndefined"
    by (simp add: HabiBot_new_def)
  have b: "host (HabiBot_new (JStr ''127.0.0.1'') JUndefined (JStr ''randy'')) = JStr ''127.0.0.1''"
      "port (HabiBot_new (JStr ''127.0.0.1'') JUndefined (JStr ''randy'')) = JUndefined"
    by (simp_all add: HabiBot_new_def)
  show ?thesis
    using a b
      C8_connect_unset_throws [of "HabiBot_new JUndefined (JNum 1337) (JStr ''randy'')" "[]"]
      C8_connect_unset_throws [of "HabiBot_new (JStr ''127.0.0.1'') JUndefined (JStr ''randy'')"
                                  "''127.0.0.1''"]
    by simp
qed

text \<open>
  C9 says that for an id absent from the noids table both \<open>getNoid\<close> and \<open>getMod\<close> return
  \<open>null\<close> and neither throws. \<open>getNoid\<close> does return \<open>null\<close>; \<open>getMod\<close> reads \<open>.mods\<close> of that
  \<open>null\<close> and throws a TypeError, against its own documentation (\<open>null otherwise\<close>).
\<close>

theorem C9_getMod_unknown_throws:
  assumes "noids st (js_toString noid) = None"
  shows "fst (getNoid noid st) = JNull \<and> fst (getMod noid st) = Inl TypeError"
  using assms by (simp add: getNoid_def getMod_def orThrow_def)

theorem C9_getMod_unknown_throws_witness:
  "noids bot0 (js_toString (JNum 7)) = None
   \<and> fst (getNoid (JNum 7) bot0) = JNull \<and> fst (getMod (JNum 7) bot0) = Inl TypeError"
proof -
  have h: "noids bot0 (js_toString (JNum 7)) = None"
    by (simp add: bot0_def HabiBot_new_def objectPrototype_def objectPrototypeKeys_def
          show_int_def show_nat.simps digit_def)
  show ?thesis using h C9_getMod_unknown_throws [OF h] by simp
qed

section \<open>The retry loop of \<open>ensureCorporated\<close>\<close>

lemma tryEnsureCorporated_never_settles:
  assumes g: "\<And>k. \<exists>g. isGhosted (botAt k) = Inr g \<and> js_truthy g"
    and n: "\<And>k. names (botAt k) ''GHOST'' = None"
  shows "tryEnsureCorporated fuel botAt k 0 = (CorpPending, replicate (Suc fuel) 2000)"
proof (induction fuel arbitrary: k)
  case 0
  from g [of k] obtain v where "isGhosted (botAt k) = Inr v" and "js_truthy v" by blast
  with n [of k] show ?case
    by (subst tryEnsureCorporated.simps) simp
next
  case (Suc fuel)
  from g [of k] obtain v where "isGhosted (botAt k) = Inr v" and "js_truthy v" by blast
  with n [of k] Suc.IH [of "Suc k"] show ?case
    by (subst tryEnsureCorporated.simps) simp
qed

text \<open>
  C6 says that \<open>ensureCorporated()\<close> on a ghost whose \<open>GHOST\<close> alias never appears polls
  five times, 2000 ms apart, and then rejects. The timer's callback calls
  \<open>ensureCorporated(curTry + 1)\<close>, which drops the argument and starts again from
  \<open>tryEnsureCorporated(0)\<close>, so the test \<open>curTry < 5\<close> never fails: however many timers
  have fired (\<open>fuel\<close>), the promise is still pending on one more timer of 2000 ms, and
  the rejection is never reached.
\<close>

theorem C6_retry_never_exhausted:
  assumes "\<And>k. \<exists>g. isGhosted (botAt k) = Inr g \<and> js_truthy g"
    and "\<And>k. names (botAt k) ''GHOST'' = None"
  shows "ensureCorporated fuel botAt 0 [] = (CorpPending, replicate (Suc fuel) 2000)"
proof -
  have "tryEnsureCorporated fuel botAt 0 0 = (CorpPending, replicate (Suc fuel) 2000)"
    using assms by (rule tryEnsureCorporated_never_settles)
  then show ?thesis by simp
qed

theorem C6_retry_never_exhausted_witness:
  "isGhosted randyBot = Inr (JBool True) \<and> js_truthy (JBool True)
   \<and> names randyBot ''GHOST'' = None
   \<and> ensureCorporated 5 (\<lambda>k. randyBot) 0 [] = (CorpPending, [2000, 2000, 2000, 2000, 2000, 2000])
   \<and> ensureCorporated 100 (\<lambda>k. randyBot) 0 [] = (CorpPending, replicate (Suc 100) 2000)"
proof -
  have g: "isGhosted randyBot = Inr (JBool True)" and n: "names randyBot ''GHOST'' = None"
    by (simp_all add: isGhosted_def getAvatar_def randy_defs eval_defs example_defs)
  have a: "\<exists>g. isGhosted ((\<lambda>k. randyBot) k) = Inr g \<and> js_truthy g" for k :: nat
    using g by simp
  have b: "names ((\<lambda>k. randyBot) k) ''GHOST'' = None" for k :: nat
    using n by simp
  have "replicate (Suc 5) (2000::nat) = [2000, 2000, 2000, 2000, 2000, 2000]"
    by (simp add: numeral_eq_Suc)
  then show ?thesis
    using g n C6_retry_never_exhausted [of "\<lambda>k. randyBot" 5, OF a b]
      C6_retry_never_exhausted [of "\<lambda>k. randyBot" 100, OF a b]
    by simp
qed

section \<open>The unit of work of \<open>sendWithDelay\<close>\<close>

lemmas conn_defs = connectedBot_def connect_def onConnect_def onDisconnect_def clearState_def
  sendWithDelay_unit_def sendWithDelay_timer_def resolveTo_def speakStore_def speakJSON_def

lemmas live_defs = liveBot_def helloCmd_def helloResolved_def queueStore_def

lemma onDisconnect_drops:
  assumes "server st = Some s0"
  shows "\<not> connected (snd (onDisconnect st)) \<and> (\<exists>sock. server (snd (onDisconnect st)) = Some sock)"
  using assms
  by (auto simp: onDisconnect_def connect_def clearState_def invokeAll_def orThrow_def Let_def
           split: option.splits sum.splits)

text \<open>
  C7, as stated: the write occurs only if the session is still connected after the wait;
  a connection that drops during the wait makes the unit fail with a not-connected
  condition and nothing is written. The only test of \<open>connected\<close> is at the start of the
  unit, before the timer is armed. Here the unit starts on a connected client and arms
  its timer; the connection then ends (\<open>onDisconnect\<close>, which with the default
  configuration reconnects and so replaces the socket); the timer fires on a client that
  is not connected, and its callback returns normally having written the message to the
  client's socket.
\<close>

theorem C7_drop_during_wait_counterexample:
  "connected connectedBot
   \<and> sendWithDelay_unit plainJSON 0 500 connectedBot speakStore
       = (Waiting speakJSON 500,
          connectedBot\<lparr>effects := effects connectedBot @ [SetTimeout 500]\<rparr>, speakStore)
   \<and> fst (onDisconnect (connectedBot\<lparr>effects := effects connectedBot @ [SetTimeout 500]\<rparr>)) = Inr ()
   \<and> \<not> connected (snd (onDisconnect (connectedBot\<lparr>effects := effects connectedBot @ [SetTimeout 500]\<rparr>)))
   \<and> fst (sendWithDelay_timer speakJSON
        (snd (onDisconnect (connectedBot\<lparr>effects := effects connectedBot @ [SetTimeout 500]\<rparr>)))) = Inr ()
   \<and> effects (snd (sendWithDelay_timer speakJSON
        (snd (onDisconnect (connectedBot\<lparr>effects := effects connectedBot @ [SetTimeout 500]\<rparr>)))))
       = [NetConnect (JNum 1337) (JStr ''127.0.0.1'') 0, SetTimeout 500,
          NetConnect (JNum 1337) (JStr ''127.0.0.1'') 1, SocketWrite 1 (speakJSON @ [LF, LF])]"
  by (simp add: conn_defs eval_defs example_defs subst_defs)

text \<open>
  C7, amended: a unit tests the connection once, when it starts, for a command object
  \<open>m\<close> in the store. If the client is not connected then, the unit is rejected with the
  not-connected message, and neither the client nor the command is touched: no timer, no
  write. If the client is connected and the substitution throws, the unit is rejected
  with what was thrown, no timer is armed, and the command keeps the fields already
  substituted. If the client is connected, has a socket, and the substitution returns,
  the unit arms the timer for the serialized command and is left waiting; when the
  timer fires on the client as the unit left it, the message and two line feeds are
  written to its socket; and when the connection has ended in between (\<open>onDisconnect\<close>),
  the client is not connected when the timer fires, and the callback still returns
  normally, having written the message and two line feeds to the socket the client has
  then.
\<close>

theorem C7_connection_tested_at_start:
  assumes "heap ref = Some m"
  shows "(\<not> connected st \<longrightarrow>
            sendWithDelay_unit stringify ref delayMillis st heap
              = (RejectedNotConnected (''Not connected to '' @ js_toString (host st) @ '':''
                                         @ js_toString (port st)), st, heap))
       \<and> (\<forall>e m2. connected st \<and> substituteState st (resolveTo st m) = (Inl e, m2) \<longrightarrow>
            sendWithDelay_unit stringify ref delayMillis st heap
              = (RejectedThrown e, st, heap(ref \<mapsto> m2)))
       \<and> (\<forall>m2 s0. connected st \<and> server st = Some s0
                   \<and> substituteState st (resolveTo st m) = (Inr (), m2) \<longrightarrow>
            sendWithDelay_unit stringify ref delayMillis st heap
              = (Waiting (stringify (JObj m2)) delayMillis,
                 st\<lparr>effects := effects st @ [SetTimeout delayMillis]\<rparr>, heap(ref \<mapsto> m2))
            \<and> sendWithDelay_timer (stringify (JObj m2))
                 (st\<lparr>effects := effects st @ [SetTimeout delayMillis]\<rparr>)
              = (Inr (), st\<lparr>effects := effects st @ [SetTimeout delayMillis,
                                  SocketWrite s0 (stringify (JObj m2) @ [LF, LF])]\<rparr>)
            \<and> \<not> connected (snd (onDisconnect (st\<lparr>effects := effects st @ [SetTimeout delayMillis]\<rparr>)))
            \<and> (\<exists>sock. server (snd (onDisconnect (st\<lparr>effects := effects st @ [SetTimeout delayMillis]\<rparr>)))
                         = Some sock
                  \<and> sendWithDelay_timer (stringify (JObj m2))
                      (snd (onDisconnect (st\<lparr>effects := effects st @ [SetTimeout delayMillis]\<rparr>)))
                    = (Inr (), (snd (onDisconnect (st\<lparr>effects := effects st @ [SetTimeout delayMillis]\<rparr>)))
                         \<lparr>effects := effects (snd (onDisconnect
                                        (st\<lparr>effects := effects st @ [SetTimeout delayMillis]\<rparr>)))
                                     @ [SocketWrite sock (stringify (JObj m2) @ [LF, LF])]\<rparr>)))"
proof (intro conjI allI impI)
  assume "\<not> connected st"
  then show "sendWithDelay_unit stringify ref delayMillis st heap
              = (RejectedNotConnected (''Not connected to '' @ js_toString (host st) @ '':''
                                         @ js_toString (port st)), st, heap)"
    by (simp add: sendWithDelay_unit_def)
next
  fix e m2
  assume "connected st \<and> substituteState st (resolveTo st m) = (Inl e, m2)"
  with assms show "sendWithDelay_unit stringify ref delayMillis st heap
              = (RejectedThrown e, st, heap(ref \<mapsto> m2))"
    by (simp add: sendWithDelay_unit_def)
next
  fix m2 s0
  let ?st1 = "st\<lparr>effects := effects st @ [SetTimeout delayMillis]\<rparr>"
  assume a: "connected st \<and> server st = Some s0
             \<and> substituteState st (resolveTo st m) = (Inr (), m2)"
  with assms show "sendWithDelay_unit stringify ref delayMillis st heap
              = (Waiting (stringify (JObj m2)) delayMillis, ?st1, heap(ref \<mapsto> m2))"
    by (simp add: sendWithDelay_unit_def)
  from a show "sendWithDelay_timer (stringify (JObj m2)) ?st1
              = (Inr (), st\<lparr>effects := effects st @ [SetTimeout delayMillis,
                                  SocketWrite s0 (stringify (JObj m2) @ [LF, LF])]\<rparr>)"
    by (simp add: sendWithDelay_timer_def)
  from a have s: "server ?st1 = Some s0" by simp
  from onDisconnect_drops [OF s] show "\<not> connected (snd (onDisconnect ?st1))" by simp
  from onDisconnect_drops [OF s] obtain sock where "server (snd (onDisconnect ?st1)) = Some sock"
    by blast
  then show "\<exists>sock. server (snd (onDisconnect ?st1)) = Some sock
                  \<and> sendWithDelay_timer (stringify (JObj m2)) (snd (onDisconnect ?st1))
                    = (Inr (), (snd (onDisconnect ?st1))
                         \<lparr>effects := effects (snd (onDisconnect ?st1))
                                     @ [SocketWrite sock (stringify (JObj m2) @ [LF, LF])]\<rparr>)"
    by (simp add: sendWithDelay_timer_def)
qed

theorem C7_connection_tested_at_start_witness:
  "\<not> connected bot0
   \<and> sendWithDelay_unit plainJSON 0 500 bot0 speakStore
       = (RejectedNotConnected ''Not connected to 127.0.0.1:1337'', bot0, speakStore)
   \<and> connected liveBot
   \<and> substituteState liveBot
         (resolveTo liveBot [(''op'', JStr ''SPEAK''), (''to'', JStr ''ME''), (''text'', JStr ''$ME.x.y'')])
       = (Inl TypeError, [(''op'', JStr ''SPEAK''), (''to'', JStr ''user-randy-100''),
                          (''text'', JStr ''$ME.x.y'')])
   \<and> sendWithDelay_unit plainJSON 13 500 liveBot queueStore
       = (RejectedThrown TypeError, liveBot,
          queueStore(13 \<mapsto> [(''op'', JStr ''SPEAK''), (''to'', JStr ''user-randy-100''),
                             (''text'', JStr ''$ME.x.y'')]))
   \<and> connected connectedBot \<and> server connectedBot = Some 0
   \<and> sendWithDelay_unit plainJSON 0 500 connectedBot speakStore
       = (Waiting speakJSON 500,
          connectedBot\<lparr>effects := effects connectedBot @ [SetTimeout 500]\<rparr>, speakStore)
   \<and> sendWithDelay_timer speakJSON (connectedBot\<lparr>effects := effects connectedBot @ [SetTimeout 500]\<rparr>)
       = (Inr (), connectedBot\<lparr>effects := effects connectedBot
                                  @ [SetTimeout 500, SocketWrite 0 (speakJSON @ [LF, LF])]\<rparr>)
   \<and> \<not> connected (snd (onDisconnect (connectedBot\<lparr>effects := effects connectedBot @ [SetTimeout 500]\<rparr>)))
   \<and> server (snd (onDisconnect (connectedBot\<lparr>effects := effects connectedBot @ [SetTimeout 500]\<rparr>)))
       = Some 1
   \<and> sendWithDelay_timer speakJSON
        (snd (onDisconnect (connectedBot\<lparr>effects := effects connectedBot @ [SetTimeout 500]\<rparr>)))
       = (Inr (), (snd (onDisconnect (connectedBot\<lparr>effects := effects connectedBot @ [SetTimeout 500]\<rparr>)))
            \<lparr>effects := effects (snd (onDisconnect
                           (connectedBot\<lparr>effects := effects connectedBot @ [SetTimeout 500]\<rparr>)))
                        @ [SocketWrite 1 (speakJSON @ [LF, LF])]\<rparr>)"
proof -
  let ?cmd = "[(''op'', JStr ''SPEAK''), (''to'', JStr ''ME''), (''esp'', JNum 0), (''text'', JStr ''hi'')]"
  let ?bad = "[(''op'', JStr ''SPEAK''), (''to'', JStr ''ME''), (''text'', JStr ''$ME.x.y'')]"
  let ?bad2 = "[(''op'', JStr ''SPEAK''), (''to'', JStr ''user-randy-100''),
                (''text'', JStr ''$ME.x.y'')]"
  let ?st1 = "connectedBot\<lparr>effects := effects connectedBot @ [SetTimeout 500]\<rparr>"
  have h0: "speakStore 0 = Some ?cmd" and h3: "queueStore 13 = Some ?bad"
    by (simp_all add: speakStore_def queueStore_def)
  have c0: "\<not> connected bot0" and c1: "connected connectedBot"
    and s1: "server connectedBot = Some 0"
    by (simp_all add: conn_defs eval_defs example_defs)
  have c2: "connected liveBot"
    by (simp add: live_defs randy_defs conn_defs eval_defs example_defs)
  have bad: "substituteState liveBot (resolveTo liveBot ?bad) = (Inl TypeError, ?bad2)"
    by (simp add: live_defs randy_defs conn_defs eval_defs example_defs subst_defs
          js_index_nondigit [of "CHR ''x''"] js_index_nondigit [of "CHR ''y''"])
  have good: "substituteState connectedBot (resolveTo connectedBot ?cmd) = (Inr (), ?cmd)"
    by (simp add: conn_defs eval_defs example_defs subst_defs)
  have j: "plainJSON (JObj ?cmd) = speakJSON"
    by (simp add: speakJSON_def)
  have u: "speakStore(0 \<mapsto> ?cmd) = speakStore"
    by (simp add: speakStore_def)
  have s2: "server (snd (onDisconnect ?st1)) = Some 1"
    by (simp add: conn_defs eval_defs example_defs)
  have host: "''Not connected to '' @ js_toString (host bot0) @ '':'' @ js_toString (port bot0)
              = ''Not connected to 127.0.0.1:1337''"
    by (simp add: eval_defs example_defs)
  note a = C7_connection_tested_at_start [of speakStore 0 ?cmd bot0 plainJSON 500, OF h0]
  note b = C7_connection_tested_at_start [of queueStore 13 ?bad liveBot plainJSON 500, OF h3]
  note c = C7_connection_tested_at_start [of speakStore 0 ?cmd connectedBot plainJSON 500, OF h0]
  from a c0 host have 1: "sendWithDelay_unit plainJSON 0 500 bot0 speakStore
       = (RejectedNotConnected ''Not connected to 127.0.0.1:1337'', bot0, speakStore)"
    by simp
  from b c2 bad have 2: "sendWithDelay_unit plainJSON 13 500 liveBot queueStore
       = (RejectedThrown TypeError, liveBot, queueStore(13 \<mapsto> ?bad2))"
    by blast
  from c c1 s1 good have 3:
    "sendWithDelay_unit plainJSON 0 500 connectedBot speakStore
       = (Waiting (plainJSON (JObj ?cmd)) 500, ?st1, speakStore(0 \<mapsto> ?cmd))
     \<and> sendWithDelay_timer (plainJSON (JObj ?cmd)) ?st1
       = (Inr (), connectedBot\<lparr>effects := effects connectedBot
                                  @ [SetTimeout 500, SocketWrite 0 (plainJSON (JObj ?cmd) @ [LF, LF])]\<rparr>)
     \<and> \<not> connected (snd (onDisconnect ?st1))
     \<and> (\<exists>sock. server (snd (onDisconnect ?st1)) = Some sock
           \<and> sendWithDelay_timer (plainJSON (JObj ?cmd)) (snd (onDisconnect ?st1))
             = (Inr (), (snd (onDisconnect ?st1))
                  \<lparr>effects := effects (snd (onDisconnect ?st1))
                              @ [SocketWrite sock (plainJSON (JObj ?cmd) @ [LF, LF])]\<rparr>))"
    by blast
  from 3 s2 have 4: "sendWithDelay_timer (plainJSON (JObj ?cmd)) (snd (onDisconnect ?st1))
             = (Inr (), (snd (onDisconnect ?st1))
                  \<lparr>effects := effects (snd (onDisconnect ?st1))
                              @ [SocketWrite 1 (plainJSON (JObj ?cmd) @ [LF, LF])]\<rparr>)"
    by auto
  show ?thesis
    using c0 c1 c2 s1 s2 bad 1 2 3 4 unfolding j u by (intro conjI) (elim conjE, assumption)+
qed

section \<open>The dispatch queue\<close>

text \<open>The substitution reads the names and the history of the client only.\<close>

lemma resolveFirst_effects: "resolveFirst (st\<lparr>effects := e\<rparr>) = resolveFirst st"
  by (intro ext) (simp add: resolveFirst_def substituteName_def cong: option.case_cong)

lemma resolveChunk_effects: "resolveChunk (st\<lparr>effects := e\<rparr>) = resolveChunk st"
  by (intro ext) (simp add: resolveChunk_def resolveFirst_effects split: prod.splits list.splits)

lemma resolveChunks_effects: "resolveChunks (st\<lparr>effects := e\<rparr>) chunks vars = resolveChunks st chunks vars"
  by (induction chunks arbitrary: vars)
     (simp_all add: resolveChunk_effects split: sum.splits prod.splits)

lemma substituteField_effects: "substituteField (st\<lparr>effects := e\<rparr>) = substituteField st"
  by (intro ext) (simp add: substituteField_def resolveChunks_effects split: list.splits)

lemma substituteLoop_effects:
  "substituteLoop (st\<lparr>effects := e\<rparr>) ks m vars = substituteLoop st ks m vars"
  by (induction ks arbitrary: m vars)
     (simp_all add: substituteField_effects split: option.splits jsval.splits sum.splits prod.splits)

lemma substituteState_effects: "substituteState (st\<lparr>effects := e\<rparr>) = substituteState st"
  by (intro ext) (simp add: substituteState_def substituteLoop_effects)

lemma substituteName_effects: "substituteName (st\<lparr>effects := e\<rparr>) = substituteName st"
  by (intro ext) (simp add: substituteName_def)

lemma resolveTo_effects: "resolveTo (st\<lparr>effects := e\<rparr>) = resolveTo st"
  by (intro ext) (simp add: resolveTo_def substituteName_effects Let_def)

lemma resolved_effects: "resolved (st\<lparr>effects := e\<rparr>) heap ref = resolved st heap ref"
  by (simp add: resolved_def substituteState_effects resolveTo_effects split: option.splits)

lemma resolved_other: "ref' \<noteq> ref \<Longrightarrow> resolved st (heap(ref \<mapsto> m2)) ref' = resolved st heap ref'"
  by (simp add: resolved_def)

text \<open>A unit on a connected client with a socket, for a command whose substitution returns.\<close>

lemma unit_armed:
  assumes "connected st" and "server st = Some sock" and "fst (resolved st heap ref) = Inr ()"
  shows "sendWithDelay_unit stringify ref d st heap
           = (Waiting (stringify (JObj (snd (resolved st heap ref)))) d,
              st\<lparr>effects := effects st @ [SetTimeout d]\<rparr>,
              heap(ref \<mapsto> snd (resolved st heap ref)))"
    and "sendWithDelay_timer (stringify (JObj (snd (resolved st heap ref))))
           (st\<lparr>effects := effects st @ [SetTimeout d]\<rparr>)
         = (Inr (), st\<lparr>effects := effects st @ [SetTimeout d,
                           SocketWrite sock (frameOf stringify st heap ref)]\<rparr>)"
  using assms
  by (auto simp: sendWithDelay_unit_def sendWithDelay_timer_def resolved_def frameOf_def
           split: option.splits prod.splits sum.splits)

lemma runQueue_armed:
  assumes "connected st" and "server st = Some sock" and "distinct (map fst queue)"
    and "list_all (\<lambda>q. fst (resolved st heap (fst q)) = Inr ()) queue"
    and "base \<le> now"
  shows "\<exists>log st' heap'. runQueue stringify queue now st heap = (log, st', heap')
           \<and> map unitRef log = map fst queue
           \<and> map (\<lambda>e. map_option snd (wrote e)) log
               = map (\<lambda>q. Some (frameOf stringify st heap (fst q))) queue
           \<and> oneAtATime log
           \<and> (log \<noteq> [] \<longrightarrow> activeFrom (hd log) = now)
           \<and> list_all2 wroteNotBefore log (dueTimes base queue)
           \<and> st' = st\<lparr>effects := effects st
                 @ concat (map (\<lambda>q. [SetTimeout (fst (snd q)),
                                      SocketWrite sock (frameOf stringify st heap (fst q))]) queue)\<rparr>"
  using assms
proof (induction queue arbitrary: now base st heap)
  case Nil
  then show ?case by simp
next
  case (Cons q queue)
  obtain ref d late where q: "q = (ref, d, late)" by (cases q)
  let ?m2 = "snd (resolved st heap ref)"
  let ?msg = "stringify (JObj ?m2)"
  let ?st1 = "st\<lparr>effects := effects st @ [SetTimeout d]\<rparr>"
  let ?st2 = "st\<lparr>effects := effects st @ [SetTimeout d, SocketWrite sock (frameOf stringify st heap ref)]\<rparr>"
  let ?heap1 = "heap(ref \<mapsto> ?m2)"
  from Cons.prems(4) q have armed: "fst (resolved st heap ref) = Inr ()" by simp
  note u = unit_armed [OF Cons.prems(1,2) armed, of stringify d]
  have fresh: "\<forall>q' \<in> set queue. fst q' \<noteq> ref"
    using Cons.prems(3) q by auto
  have same: "resolved ?st2 ?heap1 (fst q') = resolved st heap (fst q')" if "q' \<in> set queue" for q'
    using fresh that by (simp add: resolved_effects resolved_other)
  have same_frame: "frameOf stringify ?st2 ?heap1 (fst q') = frameOf stringify st heap (fst q')"
    if "q' \<in> set queue" for q'
    using same [OF that] by (simp add: frameOf_def)
  have c2: "connected ?st2" and s2: "server ?st2 = Some sock"
    using Cons.prems(1,2) by simp_all
  have d2: "distinct (map fst queue)" using Cons.prems(3) by simp
  have a2: "list_all (\<lambda>q. fst (resolved ?st2 ?heap1 (fst q)) = Inr ()) queue"
    using Cons.prems(4) same by (simp add: list_all_iff)
  have b2: "base + d \<le> now + d + late" using Cons.prems(5) by simp
  from Cons.IH [OF c2 s2 d2 a2 b2] obtain log st' heap' where
    run: "runQueue stringify queue (now + d + late) ?st2 ?heap1 = (log, st', heap')"
    and refs: "map unitRef log = map fst queue"
    and wr: "map (\<lambda>e. map_option snd (wrote e)) log
               = map (\<lambda>q. Some (frameOf stringify ?st2 ?heap1 (fst q))) queue"
    and one: "oneAtATime log"
    and hd: "log \<noteq> [] \<longrightarrow> activeFrom (hd log) = now + d + late"
    and due: "list_all2 wroteNotBefore log (dueTimes (base + d) queue)"
    and st': "st' = ?st2\<lparr>effects := effects ?st2
                 @ concat (map (\<lambda>q. [SetTimeout (fst (snd q)),
                                      SocketWrite sock (frameOf stringify ?st2 ?heap1 (fst q))]) queue)\<rparr>"
    by blast
  let ?e = "\<lparr>unitRef = ref, activeFrom = now, executor = Waiting ?msg d,
             wrote = Some (now + d + late, ?msg @ [LF, LF]),
             activeTo = Some (now + d + late)\<rparr>"
  have r: "runQueue stringify (q # queue) now st heap = (?e # log, st', heap')"
    using q u run by (simp add: frameOf_def)
  have wr': "map (\<lambda>e. map_option snd (wrote e)) log
               = map (\<lambda>q. Some (frameOf stringify st heap (fst q))) queue"
    unfolding wr by (rule map_cong) (simp_all add: same_frame)
  have eff: "concat (map (\<lambda>q. [SetTimeout (fst (snd q)),
                                SocketWrite sock (frameOf stringify ?st2 ?heap1 (fst q))]) queue)
             = concat (map (\<lambda>q. [SetTimeout (fst (snd q)),
                                SocketWrite sock (frameOf stringify st heap (fst q))]) queue)"
    by (rule arg_cong [of _ _ concat], rule map_cong) (simp_all add: same_frame)
  have one': "oneAtATime (?e # log)"
    using one hd by (cases log) simp_all
  have due': "list_all2 wroteNotBefore (?e # log) (dueTimes base (q # queue))"
    using due q Cons.prems(5) by (simp add: wroteNotBefore_def)
  show ?case
    using r refs wr' one' due' q st' eff
    by (intro exI [of _ "?e # log"] exI [of _ st'] exI [of _ heap']) (simp add: frameOf_def)
qed

lemma unit_thrown:
  assumes "connected st" and "heap ref \<noteq> None" and "fst (resolved st heap ref) = Inl e"
  shows "sendWithDelay_unit stringify ref d st heap
           = (RejectedThrown e, st, heap(ref \<mapsto> snd (resolved st heap ref)))"
  using assms
  by (auto simp: sendWithDelay_unit_def resolved_def split: option.splits prod.splits sum.splits)

lemma liveBot_connected: "connected liveBot \<and> server liveBot = Some 0"
  by (simp add: live_defs randy_defs conn_defs eval_defs example_defs)

lemma liveBot_resolved:
  "resolved liveBot queueStore 10
     = (Inr (), [(''op'', JStr ''SPEAK''), (''to'', JStr ''user-randy-100''), (''esp'', JNum 0),
                 (''text'', JStr ''hi'')])"
  "resolved liveBot queueStore 11 = (Inr (), helloResolved)"
  "resolved liveBot queueStore 12
     = (Inr (), [(''op'', JStr ''POSTURE''), (''to'', JStr ''user-randy-100''), (''pose'', JNum 141)])"
  "resolved liveBot queueStore 13
     = (Inl TypeError, [(''op'', JStr ''SPEAK''), (''to'', JStr ''user-randy-100''),
                        (''text'', JStr ''$ME.x.y'')])"
  by (simp_all add: resolved_def live_defs randy_defs conn_defs eval_defs example_defs subst_defs
        js_index_nondigit [of "CHR ''x''"] js_index_nondigit [of "CHR ''y''"])

text \<open>
  C5 says that for any commands \<open>c1\<close>, \<open>c2\<close>, \<open>c3\<close> enqueued in that order with delays \<open>d1\<close>,
  \<open>d2\<close>, \<open>d3\<close> on a connected session the socket writes are \<open>c1\<close>, \<open>c2\<close>, \<open>c3\<close> in order,
  and each write happens no earlier than the sum of the delays of its unit and of the units
  before it. A unit whose substitution throws is rejected at once, without a timer and
  without a write. Here the second of three commands, enqueued with delays 500, 300 and
  200 at time 0 on the connected client \<open>liveBot\<close>, has a path that reads a property of
  \<open>undefined\<close>: the first command is written at 500, the second is never written, and the
  third is written at 700, before its cumulative delay of 1000.
\<close>

theorem C5_thrown_unit_counterexample:
  "connected liveBot \<and> server liveBot = Some 0
   \<and> fst (runQueue plainJSON [(10, 500, 0), (13, 300, 0), (12, 200, 0)] 0 liveBot queueStore)
       = [\<lparr>unitRef = 10, activeFrom = 0,
           executor = Waiting (plainJSON (JObj [(''op'', JStr ''SPEAK''), (''to'', JStr ''user-randy-100''),
                                                (''esp'', JNum 0), (''text'', JStr ''hi'')])) 500,
           wrote = Some (500, plainJSON (JObj [(''op'', JStr ''SPEAK''), (''to'', JStr ''user-randy-100''),
                                               (''esp'', JNum 0), (''text'', JStr ''hi'')]) @ [LF, LF]),
           activeTo = Some 500\<rparr>,
          \<lparr>unitRef = 13, activeFrom = 500, executor = RejectedThrown TypeError,
           wrote = None, activeTo = Some 500\<rparr>,
          \<lparr>unitRef = 12, activeFrom = 500,
           executor = Waiting (plainJSON (JObj [(''op'', JStr ''POSTURE''), (''to'', JStr ''user-randy-100''),
                                                (''pose'', JNum 141)])) 200,
           wrote = Some (700, plainJSON (JObj [(''op'', JStr ''POSTURE''), (''to'', JStr ''user-randy-100''),
                                               (''pose'', JNum 141)]) @ [LF, LF]),
           activeTo = Some 700\<rparr>]
   \<and> effects (fst (snd (runQueue plainJSON [(10, 500, 0), (13, 300, 0), (12, 200, 0)] 0 liveBot queueStore)))
       = effects liveBot
         @ [SetTimeout 500,
            SocketWrite 0 (plainJSON (JObj [(''op'', JStr ''SPEAK''), (''to'', JStr ''user-randy-100''),
                                            (''esp'', JNum 0), (''text'', JStr ''hi'')]) @ [LF, LF]),
            SetTimeout 200,
            SocketWrite 0 (plainJSON (JObj [(''op'', JStr ''POSTURE''), (''to'', JStr ''user-randy-100''),
                                            (''pose'', JNum 141)]) @ [LF, LF])]
   \<and> dueTimes 0 [(10, 500, 0), (13, 300, 0), (12, 200, 0)] = [500, 800, 1000]
   \<and> \<not> list_all2 wroteNotBefore
          (fst (runQueue plainJSON [(10, 500, 0), (13, 300, 0), (12, 200, 0)] 0 liveBot queueStore))
          (dueTimes 0 [(10, 500, 0), (13, 300, 0), (12, 200, 0)])"
proof -
  have h: "queueStore 13 \<noteq> None"
    by (simp add: queueStore_def)
  show ?thesis
    by (simp add: liveBot_connected liveBot_resolved unit_armed(1) unit_thrown h
          resolved_effects resolved_other sendWithDelay_timer_def wroteNotBefore_def)
qed

text \<open>
  C5, amended: on a connected client with a socket, for distinct commands whose
  substitution returns, the queue runs every unit, in the order enqueued; the socket
  writes are those of the commands in that order, each preceded by its timer; at most
  one unit is active at any time; and each write happens no earlier than the start time
  plus the delays of its unit and of all units before it.
\<close>

theorem C5_armed_units_in_order:
  assumes "connected st" and "server st = Some sock" and "distinct (map fst queue)"
    and "list_all (\<lambda>q. fst (resolved st heap (fst q)) = Inr ()) queue"
    and "runQueue stringify queue now st heap = (log, st', heap')"
  shows "map unitRef log = map fst queue
       \<and> map (\<lambda>e. map_option snd (wrote e)) log
           = map (\<lambda>q. Some (frameOf stringify st heap (fst q))) queue
       \<and> effects st' = effects st
           @ concat (map (\<lambda>q. [SetTimeout (fst (snd q)),
                                SocketWrite sock (frameOf stringify st heap (fst q))]) queue)
       \<and> oneAtATime log
       \<and> list_all2 wroteNotBefore log (dueTimes now queue)"
  using runQueue_armed [OF assms(1-4), of now now stringify] assms(5) by auto

theorem C5_armed_units_in_order_witness:
  "connected liveBot \<and> server liveBot = Some 0
   \<and> distinct (map fst [(10::nat, 500::nat, 0::nat), (11, 300, 20), (12, 200, 0)])
   \<and> list_all (\<lambda>q. fst (resolved liveBot queueStore (fst q)) = Inr ())
        [(10, 500, 0), (11, 300, 20), (12, 200, 0)]
   \<and> map unitRef (fst (runQueue plainJSON [(10, 500, 0), (11, 300, 20), (12, 200, 0)] 0 liveBot queueStore))
       = [10, 11, 12]
   \<and> map (\<lambda>e. map_option snd (wrote e))
        (fst (runQueue plainJSON [(10, 500, 0), (11, 300, 20), (12, 200, 0)] 0 liveBot queueStore))
       = [Some (plainJSON (JObj [(''op'', JStr ''SPEAK''), (''to'', JStr ''user-randy-100''),
                                 (''esp'', JNum 0), (''text'', JStr ''hi'')]) @ [LF, LF]),
          Some (plainJSON (JObj helloResolved) @ [LF, LF]),
          Some (plainJSON (JObj [(''op'', JStr ''POSTURE''), (''to'', JStr ''user-randy-100''),
                                 (''pose'', JNum 141)]) @ [LF, LF])]
   \<and> effects (fst (snd (runQueue plainJSON [(10, 500, 0), (11, 300, 20), (12, 200, 0)] 0 liveBot queueStore)))
       = effects liveBot
         @ [SetTimeout 500,
            SocketWrite 0 (plainJSON (JObj [(''op'', JStr ''SPEAK''), (''to'', JStr ''user-randy-100''),
                                            (''esp'', JNum 0), (''text'', JStr ''hi'')]) @ [LF, LF]),
            SetTimeout 300,
            SocketWrite 0 (plainJSON (JObj helloResolved) @ [LF, LF]),
            SetTimeout 200,
            SocketWrite 0 (plainJSON (JObj [(''op'', JStr ''POSTURE''), (''to'', JStr ''user-randy-100''),
                                            (''pose'', JNum 141)]) @ [LF, LF])]
   \<and> oneAtATime (fst (runQueue plainJSON [(10, 500, 0), (11, 300, 20), (12, 200, 0)] 0 liveBot queueStore))
   \<and> list_all2 wroteNotBefore
        (fst (runQueue plainJSON [(10, 500, 0), (11, 300, 20), (12, 200, 0)] 0 liveBot queueStore))
        [500, 800, 1000]"
proof -
  let ?q = "[(10::nat, 500::nat, 0::nat), (11, 300, 20), (12, 200, 0)]"
  let ?r = "runQueue plainJSON ?q 0 liveBot queueStore"
  have c: "connected liveBot" and s: "server liveBot = Some 0"
    using liveBot_connected by simp_all
  have d: "distinct (map fst ?q)" by simp
  have a: "list_all (\<lambda>q. fst (resolved liveBot queueStore (fst q)) = Inr ()) ?q"
    by (simp add: liveBot_resolved)
  have run: "?r = (fst ?r, fst (snd ?r), snd (snd ?r))" by simp
  have due: "dueTimes 0 ?q = [500, 800, 1000]" by simp
  note t = C5_armed_units_in_order [OF c s d a run]
  show ?thesis
    using t c s d a unfolding due by (simp add: frameOf_def liveBot_resolved)
qed

section \<open>The command object after a send\<close>







end
